theory Spec2Isabelle
  imports Complex_Main
begin

section \<open>Items of the candidate pool\<close>

text \<open>
  An item of the pool, with the fields the ranking engine reads or writes: its id, the hue
  \<open>hsl.h\<close> (an integer number of degrees), and the four ranking statistics. Ratings are
  real numbers (the arithmetic of the source read exactly), counts are naturals. The
  display attributes (name, hex, rgb, saturation, lightness) are never read by the engine
  and are left out.

  The pool is an array of objects, and the batch, the eliminated and the favourite lists
  hold references to those objects. Here the pool is a list, and a reference is an index
  into it; \<open>includes\<close> on references is membership of the index.
\<close>

record color =
  color_id :: string
  hsl_h :: int
  eloRating :: real
  comparisons :: nat
  wins :: nat
  losses :: nat

type_synonym ref = nat

text \<open>An assignment to a field of the object behind a reference.\<close>

definition upd :: "ref \<Rightarrow> (color \<Rightarrow> color) \<Rightarrow> color list \<Rightarrow> color list" where
  "upd i f cs = cs[i := f (cs ! i)]"

section \<open>The rating update rule\<close>

definition calculateExpectedScore :: "real \<Rightarrow> real \<Rightarrow> real" where
  "calculateExpectedScore ratingA ratingB = 1 / (1 + 10 powr ((ratingB - ratingA) / 400))"

text \<open>
  \<open>updateEloRatings(winner, loser, isDraw)\<close>: the K-factor and both expected scores are
  read first, then the fields are assigned one after the other, in the source's order
  (which matters only when both references name the same object).
\<close>

definition updateEloRatings :: "color list \<Rightarrow> ref \<Rightarrow> ref \<Rightarrow> bool \<Rightarrow> color list" where
  "updateEloRatings cs winner loser isDraw =
     (let kFactor = max 32 (64 - real (comparisons (cs ! winner)) * 2);
          expectedWin = calculateExpectedScore (eloRating (cs ! winner)) (eloRating (cs ! loser));
          expectedLose = calculateExpectedScore (eloRating (cs ! loser)) (eloRating (cs ! winner));
          cs1 =
            (if isDraw then
               upd loser (\<lambda>c. c\<lparr>eloRating := eloRating c + kFactor * (0.5 - expectedLose)\<rparr>)
                 (upd winner (\<lambda>c. c\<lparr>eloRating := eloRating c + kFactor * (0.5 - expectedWin)\<rparr>) cs)
             else
               upd loser (\<lambda>c. c\<lparr>losses := losses c + 1\<rparr>)
                 (upd winner (\<lambda>c. c\<lparr>wins := wins c + 1\<rparr>)
                   (upd loser (\<lambda>c. c\<lparr>eloRating := eloRating c + kFactor * (0 - expectedLose)\<rparr>)
                     (upd winner (\<lambda>c. c\<lparr>eloRating := eloRating c + kFactor * (1 - expectedWin)\<rparr>) cs))))
      in upd loser (\<lambda>c. c\<lparr>comparisons := comparisons c + 1\<rparr>)
           (upd winner (\<lambda>c. c\<lparr>comparisons := comparisons c + 1\<rparr>) cs1))"

text \<open>
  The K-factor as the specification words it for one participant: computed from that
  participant's own comparison count.
\<close>

definition ownK :: "color \<Rightarrow> real" where
  "ownK c = max 32 (64 - 2 * real (comparisons c))"

definition mkColor :: "string \<Rightarrow> int \<Rightarrow> real \<Rightarrow> nat \<Rightarrow> nat \<Rightarrow> nat \<Rightarrow> color" where
  "mkColor i h r c w l =
     \<lparr>color_id = i, hsl_h = h, eloRating = r, comparisons = c, wins = w, losses = l\<rparr>"

section \<open>Values of the host language\<close>

text \<open>
  \<open>v || d\<close> on a number that may be absent: the default replaces an absent value and
  also the value 0.
\<close>

definition or_nat :: "nat option \<Rightarrow> nat \<Rightarrow> nat" where
  "or_nat v d = (case v of None \<Rightarrow> d | Some n \<Rightarrow> if n = 0 then d else n)"

definition or_real :: "real \<Rightarrow> real \<Rightarrow> real" where
  "or_real v d = (if v = 0 then d else v)"

text \<open>The remainder operator \<open>%\<close> on integers: the result has the sign of the dividend.\<close>

definition js_rem :: "int \<Rightarrow> int \<Rightarrow> int" where
  "js_rem a b = sgn a * (\<bar>a\<bar> mod \<bar>b\<bar>)"

text \<open>\<open>x %= 1\<close> on a real: the fractional part, with the sign of \<open>x\<close>.\<close>

definition js_fmod1 :: "real \<Rightarrow> real" where
  "js_fmod1 x = x - of_int (if 0 \<le> x then \<lfloor>x\<rfloor> else \<lceil>x\<rceil>)"

definition digit :: "nat \<Rightarrow> char" where
  "digit d = char_of (48 + d)"

fun toString :: "nat \<Rightarrow> string" where
  "toString n = (if n < 10 then [digit n] else toString (n div 10) @ [digit (n mod 10)])"

declare toString.simps [simp del]

text \<open>
  A stable sort of references by descending rating
  (\<open>sort((a, b) => b.eloRating - a.eloRating)\<close>) and by ascending hue.
\<close>

definition sortByRating :: "color list \<Rightarrow> ref list \<Rightarrow> ref list" where
  "sortByRating cs xs = sort_key (\<lambda>c. - eloRating (cs ! c)) xs"

definition sortByHue :: "color list \<Rightarrow> ref list \<Rightarrow> ref list" where
  "sortByHue cs xs = sort_key (\<lambda>c. hsl_h (cs ! c)) xs"

text \<open>A thrown exception; the engine's only one is the \<open>TypeError\<close> of a property read on \<open>undefined\<close>.\<close>

datatype error = TypeError

datatype outcome = Returned | Threw error

section \<open>The environment of a call\<close>

text \<open>
  What a call reads from outside the session: the clock (\<open>Date.now()\<close>, read at most
  twice during a call) and the random source. \<open>rand e k\<close> is the value of the \<open>k\<close>-th
  call of \<open>Math.random()\<close>, a number in \<open>[0, 1)\<close>. The order in which
  \<open>sort(() => Math.random() - 0.5)\<close> leaves the twelve hue-group keys depends on the
  host's sorting algorithm: it is some arrangement \<open>keyOrder e\<close> of the keys 0..11, reached
  after \<open>sortDraws e\<close> calls of \<open>Math.random()\<close>.
\<close>

record env =
  clock1 :: int
  clock2 :: int
  rand :: "nat \<Rightarrow> real"
  keyOrder :: "int list"
  sortDraws :: nat

section \<open>The item generator\<close>

definition goldenRatioConjugate :: real where
  "goldenRatioConjugate = 0.618033988749895"

fun genLoop :: "nat \<Rightarrow> nat \<Rightarrow> real \<Rightarrow> color list" where
  "genLoop 0 i hue = []"
| "genLoop (Suc n) i hue =
     (let hue' = js_fmod1 (hue + goldenRatioConjugate)
      in mkColor (''color_'' @ toString i) \<lfloor>hue' * 360\<rfloor> 1500 0 0 0 # genLoop n (Suc i) hue')"

definition generatePerceptuallyDistinctColors :: "nat \<Rightarrow> real \<Rightarrow> color list" where
  "generatePerceptuallyDistinctColors count r = genLoop count 0 r"

section \<open>The batch selector\<close>

text \<open>\<open>Math.floor(hue / 30) % 12\<close>, on an integer hue.\<close>

definition getHueGroup :: "int \<Rightarrow> int" where
  "getHueGroup hue = js_rem (hue div 30) 12"

text \<open>
  \<open>groupByHue\<close>: twelve lists keyed 0..11, each holding the items of its hue group in the
  order of the given list and then sorted by descending rating. An item whose group index is
  negative finds no list to be pushed to, and the call throws. Only the keys 0..11 are ever
  looked up.
\<close>

definition groupByHue :: "color list \<Rightarrow> ref list \<Rightarrow> (int \<Rightarrow> ref list) option" where
  "groupByHue cs available =
     (if list_ex (\<lambda>c. getHueGroup (hsl_h (cs ! c)) < 0) available then None
      else Some (\<lambda>k. sortByRating cs (filter (\<lambda>c. getHueGroup (hsl_h (cs ! c)) = k) available)))"

text \<open>
  The loop over the rating-sorted items from \<open>startIndex\<close> on: each is taken with
  probability 0.7 until \<open>highRatedCount\<close> items are in the batch. It returns the batch, the
  hue groups used and the number of random values read so far.
\<close>

fun highRated ::
  "color list \<Rightarrow> (nat \<Rightarrow> real) \<Rightarrow> nat \<Rightarrow> ref list \<Rightarrow> nat \<Rightarrow> ref list \<Rightarrow> int set
     \<Rightarrow> ref list \<times> int set \<times> nat" where
  "highRated cs rnd highRatedCount [] k batch used = (batch, used, k)"
| "highRated cs rnd highRatedCount (c # rest) k batch used =
     (if length batch < highRatedCount then
        (if rnd k < 0.7 then
           highRated cs rnd highRatedCount rest (Suc k) (batch @ [c])
             (insert (getHueGroup (hsl_h (cs ! c))) used)
         else highRated cs rnd highRatedCount rest (Suc k) batch used)
      else (batch, used, k))"

text \<open>The loop over the shuffled group keys: one item of each hue group not yet used.\<close>

fun groupLoop ::
  "(nat \<Rightarrow> real) \<Rightarrow> (int \<Rightarrow> ref list) \<Rightarrow> nat \<Rightarrow> int list \<Rightarrow> nat \<Rightarrow> ref list \<Rightarrow> int set
     \<Rightarrow> ref list \<times> nat" where
  "groupLoop rnd hueGroups size_n [] k batch used = (batch, k)"
| "groupLoop rnd hueGroups size_n (groupKey # rest) k batch used =
     (if length batch \<ge> size_n then (batch, k)
      else if hueGroups groupKey = [] then groupLoop rnd hueGroups size_n rest k batch used
      else if groupKey \<notin> used then
        (let randomIndex = nat \<lfloor>rnd k * real (min 3 (length (hueGroups groupKey)))\<rfloor>;
             color = hueGroups groupKey ! randomIndex
         in if color \<notin> set batch then
              groupLoop rnd hueGroups size_n rest (Suc k) (batch @ [color]) (insert groupKey used)
            else groupLoop rnd hueGroups size_n rest (Suc k) batch used)
      else groupLoop rnd hueGroups size_n rest k batch used)"

text \<open>The loop that fills the remaining slots with random items not yet in the batch.\<close>

function fillLoop :: "(nat \<Rightarrow> real) \<Rightarrow> nat \<Rightarrow> nat \<Rightarrow> ref list \<Rightarrow> ref list \<Rightarrow> ref list" where
  "fillLoop rnd size_n k batch remaining =
     (if length batch < size_n \<and> remaining \<noteq> [] then
        (let randomIndex = nat \<lfloor>rnd k * real (length remaining)\<rfloor>
         in fillLoop rnd size_n (Suc k) (batch @ [remaining ! randomIndex])
              (take randomIndex remaining @ drop (Suc randomIndex) remaining))
      else batch)"
  by pat_completeness auto
termination
  by (relation "measure (\<lambda>(rnd, size_n, k, batch, remaining). size_n - length batch)") auto

declare fillLoop.simps [simp del]

definition selectDiverseBatch :: "color list \<Rightarrow> ref list \<Rightarrow> nat \<Rightarrow> env \<Rightarrow> error + ref list" where
  "selectDiverseBatch cs available size_n e =
     (if length available \<le> size_n then Inr available
      else case groupByHue cs available of
        None \<Rightarrow> Inl TypeError
      | Some hueGroups \<Rightarrow>
          (let sortedByRating = sortByRating cs available;
               skipTop = rand e 0 < 0.6;
               startIndex = (if skipTop then nat \<lfloor>rand e 1 * 3\<rfloor> + 1 else 0);
               k1 = (if skipTop then 2 else 1);
               highRatedCount = 2 + nat \<lfloor>rand e k1 * 2\<rfloor>;
               (batch1, usedGroups, k2) =
                 highRated cs (rand e) highRatedCount (drop startIndex sortedByRating) (Suc k1) [] {};
               (batch2, k3) =
                 groupLoop (rand e) hueGroups size_n (keyOrder e) (k2 + sortDraws e) batch1 usedGroups;
               remaining = filter (\<lambda>c. c \<notin> set batch2) available;
               batch3 = fillLoop (rand e) size_n k3 batch2 remaining
           in Inr (sortByHue cs batch3)))"

section \<open>The session state machine\<close>

record settings_t =
  batchSize :: nat

record analytics_t =
  sessionStartTime :: int
  totalComparisons :: nat
  sessionComparisons :: nat
  passes :: nat
  picks :: nat
  averageDecisionTime :: real
  decisionTimes :: "int list"

text \<open>
  The construction options. A supplied item carries its four statistics; \<open>None\<close> is an
  option that is absent.
\<close>

record options_t =
  items :: "color list option"
  generateColors :: "bool option"
  colorCount :: "nat option"
  opt_maxComparisons :: "nat option"
  defaultSettings :: "settings_t option"

text \<open>
  The session object. \<open>itemsShared\<close> is not a field of the source: it records that
  \<open>this.colors\<close> is the very array \<open>options.items\<close> (as \<open>restoreState\<close> leaves it when
  nothing is generated), so that the statistics written to the pool are the ones a later
  read of \<open>options.items\<close> finds. When \<open>this.colors\<close> is assigned a new array, the items
  as they then are stay behind in \<open>options.items\<close>.
\<close>

record state =
  options :: options_t
  itemsShared :: bool
  maxComparisons :: nat
  analytics :: analytics_t
  lastActionTime :: int
  colors :: "color list"
  eliminated :: "ref list"
  favorites :: "ref list"
  evaluating :: "ref list option"
  settings :: "settings_t option"
  sessionComplete :: bool

definition optionsItems :: "state \<Rightarrow> color list option" where
  "optionsItems s = (if itemsShared s then Some (colors s) else items (options s))"

text \<open>The constructor: without an item list and without \<open>generateColors\<close> no session is set up.\<close>

definition EloPickerState :: "options_t \<Rightarrow> env \<Rightarrow> state option" where
  "EloPickerState opts e =
     (if items opts = None \<and> generateColors opts \<noteq> Some True then None
      else Some \<lparr>options = opts, itemsShared = False,
        maxComparisons = or_nat (opt_maxComparisons opts) 20,
        analytics = \<lparr>sessionStartTime = clock1 e, totalComparisons = 0, sessionComparisons = 0,
          passes = 0, picks = 0, averageDecisionTime = 0, decisionTimes = []\<rparr>,
        lastActionTime = clock2 e, colors = [], eliminated = [], favorites = [],
        evaluating = None, settings = None, sessionComplete = False\<rparr>)"

definition complete :: "state \<Rightarrow> state" where
  "complete s = s\<lparr>evaluating := None, sessionComplete := True\<rparr>"

definition capReached :: "state \<Rightarrow> bool" where
  "capReached s = (sessionComplete s \<or> sessionComparisons (analytics s) \<ge> maxComparisons s)"

text \<open>The items that are neither eliminated nor favourites, in pool order.\<close>

definition availableRefs :: "state \<Rightarrow> ref list" where
  "availableRefs s =
     filter (\<lambda>c. c \<notin> set (eliminated s) \<and> c \<notin> set (favorites s)) [0..<length (colors s)]"

text \<open>
  The elimination pass of \<open>nextBatch\<close>: the references it appends to \<open>eliminated\<close>. The
  threshold is the rating at index \<open>floor(n * 0.75)\<close> of the rating-sorted list, or 1500
  when that rating is 0.
\<close>

definition eliminationPass :: "color list \<Rightarrow> ref list \<Rightarrow> ref list" where
  "eliminationPass cs available =
     (let sortedByRating = sortByRating cs available;
          threshold =
            or_real (eloRating (cs ! (sortedByRating ! nat \<lfloor>real (length sortedByRating) * 0.75\<rfloor>))) 1500
      in filter (\<lambda>c. comparisons (cs ! c) \<ge> 8 \<and> eloRating (cs ! c) < threshold - 200) available)"

definition nextBatch :: "state \<Rightarrow> env \<Rightarrow> outcome \<times> state" where
  "nextBatch s e =
     (if capReached s then (Returned, complete s)
      else
        (let available = availableRefs s
         in if length available = 0 then (Returned, complete s)
            else
              (let s1 =
                     (if sessionComparisons (analytics s) \<ge> 10 then
                        s\<lparr>eliminated := eliminated s @ eliminationPass (colors s) available\<rparr>
                      else s);
                   batchSize = min 10 (length available)
               in case selectDiverseBatch (colors s1)
                         (filter (\<lambda>c. c \<notin> set (eliminated s1)) available) batchSize e of
                    Inl err \<Rightarrow> (Threw err, s1)
                  | Inr batch \<Rightarrow> (Returned, s1\<lparr>evaluating := Some batch, lastActionTime := clock2 e\<rparr>))))"

text \<open>
  A supplied item as \<open>initialize\<close> copies it: a rating of 0 becomes 1500; the counts are
  kept (\<open>n || 0\<close> is \<open>n\<close>).
\<close>

definition adoptItem :: "color \<Rightarrow> color" where
  "adoptItem item = item\<lparr>eloRating := or_real (eloRating item) 1500\<rparr>"

definition chooseSettings :: "settings_t option \<Rightarrow> options_t \<Rightarrow> settings_t" where
  "chooseSettings given opts =
     (case given of Some x \<Rightarrow> x
      | None \<Rightarrow> (case defaultSettings opts of Some d \<Rightarrow> d | None \<Rightarrow> \<lparr>batchSize = 10\<rparr>))"

definition initialize :: "state \<Rightarrow> settings_t option \<Rightarrow> env \<Rightarrow> outcome \<times> state" where
  "initialize s given e =
     nextBatch
       (s\<lparr>settings := Some (chooseSettings given (options s)),
          colors :=
            (if generateColors (options s) \<noteq> Some False then
               generatePerceptuallyDistinctColors (or_nat (colorCount (options s)) 200) (rand e 0)
             else map adoptItem (case optionsItems s of None \<Rightarrow> [] | Some xs \<Rightarrow> xs)),
          options := (options s)\<lparr>items := optionsItems s\<rparr>, itemsShared := False,
          eliminated := [], favorites := [], evaluating := None, sessionComplete := False,
          analytics := (analytics s)\<lparr>sessionStartTime := clock1 e, sessionComparisons := 0\<rparr>\<rparr>)
       (e\<lparr>rand := (\<lambda>k. rand e (Suc k))\<rparr>)"

text \<open>The serialized snapshot; \<open>None\<close> is a field that is absent.\<close>

record saved_color =
  saved_id :: string
  saved_eloRating :: real
  saved_comparisons :: nat
  saved_wins :: nat
  saved_losses :: nat

record snapshot =
  snap_colors :: "saved_color list option"
  snap_evaluating :: "string list option"
  snap_favorites :: "string list option"
  snap_eliminated :: "string list option"
  snap_settings :: "settings_t option"
  snap_analytics :: "analytics_t option"
  snap_sessionComplete :: "bool option"

definition getState :: "state \<Rightarrow> snapshot" where
  "getState s =
     \<lparr>snap_colors = Some (map (\<lambda>c. \<lparr>saved_id = color_id c, saved_eloRating = eloRating c,
          saved_comparisons = comparisons c, saved_wins = wins c, saved_losses = losses c\<rparr>) (colors s)),
      snap_evaluating =
        Some (case evaluating s of None \<Rightarrow> [] | Some ev \<Rightarrow> map (\<lambda>c. color_id (colors s ! c)) ev),
      snap_favorites = Some (map (\<lambda>c. color_id (colors s ! c)) (favorites s)),
      snap_eliminated = Some (map (\<lambda>c. color_id (colors s ! c)) (eliminated s)),
      snap_settings = settings s,
      snap_analytics = Some (analytics s),
      snap_sessionComplete = Some (sessionComplete s)\<rparr>"

text \<open>The map from id to item: a later item of the pool replaces an earlier one with the same id.\<close>

definition colorMap :: "color list \<Rightarrow> string \<Rightarrow> ref option" where
  "colorMap cs = fold (\<lambda>i m. m(color_id (cs ! i) \<mapsto> i)) [0..<length cs] Map.empty"

definition lookupAll :: "(string \<Rightarrow> ref option) \<Rightarrow> string list \<Rightarrow> ref list" where
  "lookupAll m ids = concat (map (\<lambda>i. case m i of None \<Rightarrow> [] | Some c \<Rightarrow> [c]) ids)"

definition overlay :: "(string \<Rightarrow> ref option) \<Rightarrow> saved_color \<Rightarrow> color list \<Rightarrow> color list" where
  "overlay m savedColor cs =
     (case m (saved_id savedColor) of
        None \<Rightarrow> cs
      | Some c \<Rightarrow>
          upd c (\<lambda>color. color\<lparr>eloRating := saved_eloRating savedColor,
            comparisons := saved_comparisons savedColor,
            wins := saved_wins savedColor, losses := saved_losses savedColor\<rparr>) cs)"

definition restoreState :: "state \<Rightarrow> snapshot \<Rightarrow> env \<Rightarrow> state" where
  "restoreState s snap e =
     (let generated = (generateColors (options s) \<noteq> Some False);
          cs0 =
            (if generated then
               generatePerceptuallyDistinctColors (or_nat (colorCount (options s)) 200) (rand e 0)
             else (case optionsItems s of None \<Rightarrow> [] | Some xs \<Rightarrow> xs));
          m = colorMap cs0;
          cs = (case snap_colors snap of None \<Rightarrow> cs0 | Some saved \<Rightarrow> fold (overlay m) saved cs0);
          s1 = s\<lparr>settings := Some (chooseSettings (snap_settings snap) (options s)),
                 colors := cs,
                 options := (options s)\<lparr>items := optionsItems s\<rparr>,
                 itemsShared := (\<not> generated \<and> optionsItems s \<noteq> None),
                 evaluating := map_option (lookupAll m) (snap_evaluating snap),
                 favorites := (case snap_favorites snap of None \<Rightarrow> [] | Some ids \<Rightarrow> lookupAll m ids),
                 eliminated := (case snap_eliminated snap of None \<Rightarrow> [] | Some ids \<Rightarrow> lookupAll m ids),
                 analytics := (case snap_analytics snap of None \<Rightarrow> analytics s | Some a \<Rightarrow> a),
                 sessionComplete := (case snap_sessionComplete snap of None \<Rightarrow> False | Some b \<Rightarrow> b)\<rparr>
      in if capReached s1 then s1\<lparr>evaluating := None, sessionComplete := True\<rparr> else s1)"

text \<open>The decision latency is appended to the log and the running average recomputed.\<close>

definition recordDecision :: "state \<Rightarrow> int \<Rightarrow> analytics_t" where
  "recordDecision s t =
     (let times = decisionTimes (analytics s) @ [t - lastActionTime s]
      in (analytics s)\<lparr>decisionTimes := times,
           averageDecisionTime := real_of_int (sum_list times) / real (length times)\<rparr>)"

text \<open>Every pair \<open>(xs[i], xs[j])\<close> with \<open>i < j\<close>, in the order of the two nested loops, updated as a draw.\<close>

fun drawAllPairs :: "ref list \<Rightarrow> color list \<Rightarrow> color list" where
  "drawAllPairs [] cs = cs"
| "drawAllPairs (x # xs) cs = drawAllPairs xs (fold (\<lambda>y cs'. updateEloRatings cs' x y True) xs cs)"

definition winAll :: "ref list \<Rightarrow> ref list \<Rightarrow> color list \<Rightarrow> color list" where
  "winAll winners losers cs =
     fold (\<lambda>winner cs'. fold (\<lambda>loser cs''. updateEloRatings cs'' winner loser False) losers cs') winners cs"

definition checkForNewFavorites :: "state \<Rightarrow> state" where
  "checkForNewFavorites s =
     (if sessionComparisons (analytics s) \<ge> 20 then
        (let available = filter (\<lambda>c. comparisons (colors s ! c) \<ge> 10) (availableRefs s);
             sorted = sortByRating (colors s) available
         in case sorted of
              [] \<Rightarrow> s
            | topColor # rest \<Rightarrow>
                (let secondBest =
                       (case rest of [] \<Rightarrow> 1500 | c # _ \<Rightarrow> or_real (eloRating (colors s ! c)) 1500)
                 in if eloRating (colors s ! topColor) > secondBest + 100
                       \<or> sessionComparisons (analytics s) \<ge> 25
                    then s\<lparr>favorites := favorites s @ [topColor]\<rparr> else s))
      else s)"

definition pick :: "state \<Rightarrow> string list \<Rightarrow> env \<Rightarrow> outcome \<times> state" where
  "pick s picked e =
     (case evaluating s of
        None \<Rightarrow> (Returned, s)
      | Some ev \<Rightarrow>
          if picked = [] then (Returned, s)
          else if capReached s then (Returned, s\<lparr>sessionComplete := True, evaluating := None\<rparr>)
          else
            (let a1 = recordDecision s (clock1 e);
                 winners = filter (\<lambda>c. color_id (colors s ! c) \<in> set picked) ev;
                 losers = filter (\<lambda>c. color_id (colors s ! c) \<notin> set picked) ev;
                 cs1 = winAll winners losers (colors s);
                 cs2 = (if length winners > 1 then drawAllPairs winners cs1 else cs1);
                 a2 = a1\<lparr>sessionComparisons := sessionComparisons a1 + 1,
                         totalComparisons := totalComparisons a1 + 1, picks := picks a1 + 1\<rparr>;
                 s1 = checkForNewFavorites (s\<lparr>analytics := a2, colors := cs2\<rparr>)
             in if sessionComparisons (analytics s1) \<ge> maxComparisons s1 then
                  (Returned, s1\<lparr>sessionComplete := True, evaluating := None\<rparr>)
                else nextBatch s1 e))"

definition pass :: "state \<Rightarrow> env \<Rightarrow> outcome \<times> state" where
  "pass s e =
     (case evaluating s of
        None \<Rightarrow> (Returned, s)
      | Some ev \<Rightarrow>
          if capReached s then (Returned, s\<lparr>sessionComplete := True, evaluating := None\<rparr>)
          else
            (let a1 = recordDecision s (clock1 e);
                 cs1 = drawAllPairs ev (colors s);
                 a2 = a1\<lparr>sessionComparisons := sessionComparisons a1 + 1, passes := passes a1 + 1\<rparr>;
                 s1 = s\<lparr>analytics := a2, colors := cs1\<rparr>
             in if sessionComparisons (analytics s1) \<ge> maxComparisons s1 then
                  (Returned, s1\<lparr>sessionComplete := True, evaluating := None\<rparr>)
                else nextBatch s1 e))"

text \<open>
  A sequence of decisions made on a session, each with the environment of its call. A
  caller that catches an exception goes on with the session as the call left it.
\<close>

datatype decision = Pick "string list" env | Pass env

fun decide :: "state \<Rightarrow> decision \<Rightarrow> state" where
  "decide s (Pick picked e) = snd (pick s picked e)"
| "decide s (Pass e) = snd (pass s e)"

definition run :: "state \<Rightarrow> decision list \<Rightarrow> state" where
  "run s ds = fold (\<lambda>d s'. decide s' d) ds s"

section \<open>Derived notions and example sessions\<close>

text \<open>The total rating of a pool.\<close>

definition total :: "color list \<Rightarrow> real" where
  "total cs = sum_list (map eloRating cs)"

text \<open>Every reference of the current batch points into the pool.\<close>

definition refsValid :: "state \<Rightarrow> bool" where
  "refsValid s = (case evaluating s of None \<Rightarrow> True
     | Some ev \<Rightarrow> list_all (\<lambda>c. c < length (colors s)) ev)"

text \<open>
  Concrete sessions on which the code is evaluated: a session over one supplied item, as
  the constructor leaves it; the snapshot of a session in its eleventh round in which the
  item has sunk to rating 0, and the session restored from it; a snapshot whose batch
  names an id the pool does not have, and the session restored from it; a snapshot at the
  round cap.
\<close>

definition demoEnv :: env where
  "demoEnv = \<lparr>clock1 = 1000, clock2 = 1001, rand = (\<lambda>k. 1 / 2),
     keyOrder = [0, 1, 2, 3, 4, 5, 6, 7, 8, 9, 10, 11], sortDraws = 0\<rparr>"

definition oneItemOptions :: options_t where
  "oneItemOptions = \<lparr>items = Some [mkColor ''a'' 0 1500 0 0 0], generateColors = Some False,
     colorCount = None, opt_maxComparisons = None, defaultSettings = None\<rparr>"

definition freshAnalytics :: analytics_t where
  "freshAnalytics = \<lparr>sessionStartTime = 1000, totalComparisons = 0, sessionComparisons = 0,
     passes = 0, picks = 0, averageDecisionTime = 0, decisionTimes = []\<rparr>"

definition oneItemSession :: state where
  "oneItemSession = \<lparr>options = oneItemOptions, itemsShared = False, maxComparisons = 20,
     analytics = freshAnalytics, lastActionTime = 1001, colors = [], eliminated = [],
     favorites = [], evaluating = None, settings = None, sessionComplete = False\<rparr>"

definition lowRatedSnapshot :: snapshot where
  "lowRatedSnapshot =
     \<lparr>snap_colors = Some [\<lparr>saved_id = ''a'', saved_eloRating = 0, saved_comparisons = 8,
        saved_wins = 0, saved_losses = 8\<rparr>],
      snap_evaluating = Some [''a''], snap_favorites = Some [], snap_eliminated = Some [],
      snap_settings = None,
      snap_analytics = Some (freshAnalytics\<lparr>totalComparisons := 10, sessionComparisons := 10,
        picks := 10\<rparr>),
      snap_sessionComplete = Some False\<rparr>"

definition lowRatedSession :: state where
  "lowRatedSession = oneItemSession\<lparr>itemsShared := True,
     analytics := freshAnalytics\<lparr>totalComparisons := 10, sessionComparisons := 10, picks := 10\<rparr>,
     colors := [mkColor ''a'' 0 0 8 0 8], evaluating := Some [0],
     settings := Some \<lparr>batchSize = 10\<rparr>\<rparr>"

definition unknownIdSnapshot :: snapshot where
  "unknownIdSnapshot =
     \<lparr>snap_colors = None, snap_evaluating = Some [''gone''], snap_favorites = None,
      snap_eliminated = None, snap_settings = None, snap_analytics = None,
      snap_sessionComplete = None\<rparr>"

definition emptyBatchSession :: state where
  "emptyBatchSession = oneItemSession\<lparr>itemsShared := True,
     colors := [mkColor ''a'' 0 1500 0 0 0], evaluating := Some [],
     settings := Some \<lparr>batchSize = 10\<rparr>\<rparr>"

definition cappedSnapshot :: snapshot where
  "cappedSnapshot = lowRatedSnapshot\<lparr>snap_analytics :=
     Some (freshAnalytics\<lparr>totalComparisons := 20, sessionComparisons := 20, picks := 20\<rparr>)\<rparr>"

text \<open>A pool of two items and a session whose batch is both of them.\<close>

definition twoItems :: "color list" where
  "twoItems = [mkColor ''a'' 0 1500 0 0 0, mkColor ''b'' 30 1500 16 0 0]"

definition twoItemSession :: state where
  "twoItemSession = oneItemSession\<lparr>colors := twoItems, evaluating := Some [0, 1]\<rparr>"

text \<open>A pool of three supplied items, and the session over it as \<open>initialize\<close> leaves it.\<close>

definition threeItems :: "color list" where
  "threeItems = [mkColor ''item1'' 0 1500 0 0 0, mkColor ''item2'' 120 1500 0 0 0,
     mkColor ''item3'' 240 1500 0 0 0]"

definition threeItemOptions :: options_t where
  "threeItemOptions = \<lparr>items = Some threeItems, generateColors = Some False,
     colorCount = None, opt_maxComparisons = None, defaultSettings = None\<rparr>"

definition threeItemSession :: state where
  "threeItemSession = \<lparr>options = threeItemOptions, itemsShared = False, maxComparisons = 20,
     analytics = freshAnalytics, lastActionTime = 1001, colors = threeItems, eliminated = [],
     favorites = [], evaluating = Some [0, 1, 2], settings = Some \<lparr>batchSize = 10\<rparr>,
     sessionComplete = False\<rparr>"

text \<open>
  The invariant of an item's statistics, and the bounded drift of a pool: the pool keeps its
  length, and every rating has moved by at most 64 for each comparison the item has been
  given since.
\<close>

definition statsOk :: "color \<Rightarrow> bool" where
  "statsOk c = (wins c + losses c \<le> comparisons c)"

definition drift :: "color list \<Rightarrow> color list \<Rightarrow> bool" where
  "drift cs cs' = (length cs' = length cs \<and>
     list_all (\<lambda>i. \<bar>eloRating (cs' ! i) - eloRating (cs ! i)\<bar>
         \<le> 64 * (real (comparisons (cs' ! i)) - real (comparisons (cs ! i)))) [0..<length cs])"

definition poolInv :: "color list \<Rightarrow> color list \<Rightarrow> bool" where
  "poolInv cs0 cs = (list_all statsOk cs \<and> drift cs0 cs)"

text \<open>A random source as \<open>Math.random()\<close> is: every value lies in \<open>[0, 1)\<close>.\<close>

definition randomOk :: "(nat \<Rightarrow> real) \<Rightarrow> bool" where
  "randomOk rnd = (\<forall>k. 0 \<le> rnd k \<and> rnd k < 1)"

text \<open>
  A random source whose every value is 0.65, a pool of four items, and the sessions the
  constructor builds for a generated pool of requested size 0 and for an empty list of
  supplied items.
\<close>

definition eagerEnv :: env where
  "eagerEnv = demoEnv\<lparr>rand := (\<lambda>k. 13 / 20)\<rparr>"

definition fourItems :: "color list" where
  "fourItems = [mkColor ''a'' 0 1500 0 0 0, mkColor ''b'' 100 1500 0 0 0,
     mkColor ''c'' 200 1500 0 0 0, mkColor ''d'' 300 1500 0 0 0]"

definition zeroCountOptions :: options_t where
  "zeroCountOptions = \<lparr>items = None, generateColors = Some True, colorCount = Some 0,
     opt_maxComparisons = None, defaultSettings = None\<rparr>"

definition zeroCountSession :: state where
  "zeroCountSession = oneItemSession\<lparr>options := zeroCountOptions\<rparr>"

definition emptyItemsOptions :: options_t where
  "emptyItemsOptions = \<lparr>items = Some [], generateColors = Some False, colorCount = Some 0,
     opt_maxComparisons = None, defaultSettings = None\<rparr>"

definition emptyItemsSession :: state where
  "emptyItemsSession = oneItemSession\<lparr>options := emptyItemsOptions\<rparr>"

text \<open>A decision whose call reads a random source in \<open>[0, 1)\<close>.\<close>

definition decisionOk :: "decision \<Rightarrow> bool" where
  "decisionOk d = (case d of Pick picked e \<Rightarrow> randomOk (rand e) | Pass e \<Rightarrow> randomOk (rand e))"

section \<open>Properties of the rating update rule\<close>

lemma mkColor_sel [simp]:
  "color_id (mkColor i h r c w l) = i"
  "hsl_h (mkColor i h r c w l) = h"
  "eloRating (mkColor i h r c w l) = r"
  "comparisons (mkColor i h r c w l) = c"
  "wins (mkColor i h r c w l) = w"
  "losses (mkColor i h r c w l) = l"
  by (simp_all add: mkColor_def)

lemma expected_equal [simp]: "calculateExpectedScore r r = 1 / 2"
  by (simp add: calculateExpectedScore_def)

lemma expected_pos: "0 < calculateExpectedScore a b"
  by (simp add: calculateExpectedScore_def add_pos_pos)

lemma expected_sum: "calculateExpectedScore a b + calculateExpectedScore b a = 1"
proof -
  define t where "t = 10 powr ((b - a) / 400)"
  have tpos: "0 < t" by (simp add: t_def)
  have "(a - b) / 400 = - ((b - a) / 400)" by (simp add: field_simps)
  then have inv: "10 powr ((a - b) / 400) = 1 / t"
    unfolding t_def by (simp only: powr_minus) (simp add: field_simps)
  have "1 / (1 + t) + 1 / (1 + 1 / t) = 1"
    using tpos by (simp add: field_simps)
  then show ?thesis
    by (simp add: calculateExpectedScore_def inv t_def [symmetric])
qed

lemma expected_lt_one: "calculateExpectedScore a b < 1"
  using expected_sum [of a b] expected_pos [of b a] by linarith

lemma length_upd [simp]: "length (upd i f cs) = length cs"
  by (simp add: upd_def)

lemma nth_upd: "i < length cs \<Longrightarrow> upd i f cs ! j = (if j = i then f (cs ! i) else cs ! j)"
  by (simp add: upd_def)

lemma length_updateEloRatings [simp]: "length (updateEloRatings cs w l d) = length cs"
  by (simp add: updateEloRatings_def Let_def)

text \<open>The fields of both participants after one non-draw update of two distinct items.\<close>

lemma update_win_winner:
  assumes "w < length cs" "l < length cs" "w \<noteq> l"
  shows "updateEloRatings cs w l False ! w =
    (cs ! w)\<lparr>eloRating := eloRating (cs ! w)
        + max 32 (64 - real (comparisons (cs ! w)) * 2)
          * (1 - calculateExpectedScore (eloRating (cs ! w)) (eloRating (cs ! l))),
      comparisons := comparisons (cs ! w) + 1, wins := wins (cs ! w) + 1\<rparr>"
  using assms by (simp add: updateEloRatings_def Let_def nth_upd)

lemma update_win_loser:
  assumes "w < length cs" "l < length cs" "w \<noteq> l"
  shows "updateEloRatings cs w l False ! l =
    (cs ! l)\<lparr>eloRating := eloRating (cs ! l)
        + max 32 (64 - real (comparisons (cs ! w)) * 2)
          * (0 - calculateExpectedScore (eloRating (cs ! l)) (eloRating (cs ! w))),
      comparisons := comparisons (cs ! l) + 1, losses := losses (cs ! l) + 1\<rparr>"
  using assms by (simp add: updateEloRatings_def Let_def nth_upd)

lemma update_other:
  assumes "j \<noteq> w" "j \<noteq> l"
  shows "updateEloRatings cs w l d ! j = cs ! j"
  using assms by (simp add: updateEloRatings_def Let_def upd_def)

text \<open>
  C8. A non-draw update of two distinct items with equal prior ratings and equal prior
  comparison counts strictly raises the winner's rating, strictly lowers the loser's, and
  the two changes have the same magnitude.
\<close>

theorem update_equal_priors:
  assumes "w < length cs" "l < length cs" "w \<noteq> l"
    and "eloRating (cs ! w) = eloRating (cs ! l)"
    and "comparisons (cs ! w) = comparisons (cs ! l)"
  shows "eloRating (updateEloRatings cs w l False ! w) > eloRating (cs ! w)
    \<and> eloRating (updateEloRatings cs w l False ! l) < eloRating (cs ! l)
    \<and> eloRating (updateEloRatings cs w l False ! w) - eloRating (cs ! w)
        = eloRating (cs ! l) - eloRating (updateEloRatings cs w l False ! l)"
  using assms by (simp add: update_win_winner update_win_loser)

theorem update_equal_priors_witness:
  "eloRating (updateEloRatings
       [mkColor ''a'' 0 1500 4 1 1, mkColor ''b'' 30 1500 4 2 0] 0 1 False ! 0) > 1500
   \<and> eloRating (updateEloRatings
       [mkColor ''a'' 0 1500 4 1 1, mkColor ''b'' 30 1500 4 2 0] 0 1 False ! 1) < 1500"
  using update_equal_priors [of 0 "[mkColor ''a'' 0 1500 4 1 1, mkColor ''b'' 30 1500 4 2 0]" 1]
  by simp


text \<open>
  C1 (as the code has it). In a non-draw update of two distinct items, both rating changes
  are scaled by one K-factor, the one computed from the winner's prior comparison count:
  the winner moves by \<open>K\<^sub>w (1 - E\<^sub>w)\<close> and the loser by \<open>K\<^sub>w (0 - E\<^sub>l)\<close>.
\<close>

theorem update_uses_winner_K:
  assumes "w < length cs" "l < length cs" "w \<noteq> l"
  shows "eloRating (updateEloRatings cs w l False ! w) - eloRating (cs ! w)
      = ownK (cs ! w) * (1 - calculateExpectedScore (eloRating (cs ! w)) (eloRating (cs ! l)))
    \<and> eloRating (updateEloRatings cs w l False ! l) - eloRating (cs ! l)
      = ownK (cs ! w) * (0 - calculateExpectedScore (eloRating (cs ! l)) (eloRating (cs ! w)))"
  using assms by (simp add: update_win_winner update_win_loser ownK_def mult.commute)

theorem update_uses_winner_K_witness:
  "eloRating (updateEloRatings twoItems 0 1 False ! 0) - eloRating (twoItems ! 0) = 32
   \<and> eloRating (updateEloRatings twoItems 0 1 False ! 1) - eloRating (twoItems ! 1) = - 32"
  using update_uses_winner_K [of 0 twoItems 1]
  by (simp add: ownK_def twoItems_def)

text \<open>
  C1 as the claim words it fails: with a winner of 0 and a loser of 16 prior comparisons,
  both rated 1500, the loser's own K-factor is 32 and would move it by -16; the code moves
  it by -32.
\<close>

theorem loser_own_K_counterexample:
  "eloRating (updateEloRatings twoItems 0 1 False ! 1) - eloRating (twoItems ! 1)
   \<noteq> ownK (twoItems ! 1)
       * (0 - calculateExpectedScore (eloRating (twoItems ! 1)) (eloRating (twoItems ! 0)))"
  by (simp add: update_win_loser ownK_def twoItems_def)

section \<open>Conservation of the total rating\<close>

lemma fold_invariant:
  assumes "\<And>x a. x \<in> set xs \<Longrightarrow> I a \<Longrightarrow> I (f x a)" and "I a"
  shows "I (fold f xs a)"
  using assms by (induction xs arbitrary: a) auto

lemma sum_list_update_real:
  fixes xs :: "real list"
  shows "i < length xs \<Longrightarrow> sum_list (xs[i := x]) = sum_list xs + x - xs ! i"
proof (induction xs arbitrary: i)
  case Nil
  then show ?case by simp
next
  case (Cons a xs)
  then show ?case by (cases i) auto
qed

lemma total_upd:
  assumes "i < length cs"
  shows "total (upd i f cs) = total cs + eloRating (f (cs ! i)) - eloRating (cs ! i)"
  using assms by (simp add: total_def upd_def map_update sum_list_update_real)

lemma total_updateEloRatings:
  assumes "w < length cs" "l < length cs"
  shows "total (updateEloRatings cs w l d) = total cs"
proof -
  define K where "K = max 32 (64 - real (comparisons (cs ! w)) * 2)"
  define eW where "eW = calculateExpectedScore (eloRating (cs ! w)) (eloRating (cs ! l))"
  define eL where "eL = calculateExpectedScore (eloRating (cs ! l)) (eloRating (cs ! w))"
  have s: "eW + eL = 1"
    unfolding eW_def eL_def by (rule expected_sum)
  have "total (updateEloRatings cs w l d)
      = (if d then total cs + K * (0.5 - eW) + K * (0.5 - eL)
         else total cs + K * (1 - eW) + K * (0 - eL))"
    using assms
    by (simp add: updateEloRatings_def Let_def total_upd
        K_def [symmetric] eW_def [symmetric] eL_def [symmetric])
  also have "\<dots> = total cs + K * (1 - (eW + eL))"
    by (simp add: algebra_simps)
  finally show ?thesis by (simp add: s)
qed

lemma pair_sum_updateEloRatings:
  assumes "w < length cs" "l < length cs"
  shows "eloRating (updateEloRatings cs w l d ! w) + eloRating (updateEloRatings cs w l d ! l)
    = eloRating (cs ! w) + eloRating (cs ! l)"
proof -
  define K where "K = max 32 (64 - real (comparisons (cs ! w)) * 2)"
  define eW where "eW = calculateExpectedScore (eloRating (cs ! w)) (eloRating (cs ! l))"
  define eL where "eL = calculateExpectedScore (eloRating (cs ! l)) (eloRating (cs ! w))"
  have s: "eL = 1 - eW"
    using expected_sum [of "eloRating (cs ! w)" "eloRating (cs ! l)"]
    unfolding eW_def eL_def by linarith
  show ?thesis
  proof (cases "w = l")
    case True
    then show ?thesis
      using assms by (simp add: updateEloRatings_def Let_def nth_upd)
  next
    case False
    then show ?thesis
      using assms
      by (simp add: updateEloRatings_def Let_def nth_upd
          K_def [symmetric] eW_def [symmetric] eL_def [symmetric])
        (simp add: s algebra_simps)
  qed
qed

lemma draw_fold_total:
  assumes "x < length cs" "list_all (\<lambda>c. c < length cs) xs"
  shows "length (fold (\<lambda>y cs'. updateEloRatings cs' x y d) xs cs) = length cs
    \<and> total (fold (\<lambda>y cs'. updateEloRatings cs' x y d) xs cs) = total cs"
  using assms
  by (intro fold_invariant [where I = "\<lambda>a. length a = length cs \<and> total a = total cs"])
    (auto simp: total_updateEloRatings list_all_iff)

lemma drawAllPairs_total:
  assumes "list_all (\<lambda>c. c < length cs) xs"
  shows "length (drawAllPairs xs cs) = length cs \<and> total (drawAllPairs xs cs) = total cs"
  using assms
proof (induction xs arbitrary: cs)
  case Nil
  then show ?case by simp
next
  case (Cons x xs)
  let ?cs' = "fold (\<lambda>y cs'. updateEloRatings cs' x y True) xs cs"
  have a: "length ?cs' = length cs \<and> total ?cs' = total cs"
    using Cons.prems by (intro draw_fold_total) simp_all
  then have "list_all (\<lambda>c. c < length ?cs') xs"
    using Cons.prems by simp
  from Cons.IH [OF this] a show ?case by simp
qed

lemma winAll_total:
  assumes "list_all (\<lambda>c. c < length cs) ws" "list_all (\<lambda>c. c < length cs) ls"
  shows "length (winAll ws ls cs) = length cs \<and> total (winAll ws ls cs) = total cs"
  unfolding winAll_def
proof (rule fold_invariant [where I = "\<lambda>a. length a = length cs \<and> total a = total cs"])
  fix x a
  assume x: "x \<in> set ws" and a: "length a = length cs \<and> total a = total cs"
  have "x < length a" using x a assms(1) by (simp add: list_all_iff)
  moreover have "list_all (\<lambda>c. c < length a) ls" using a assms(2) by simp
  ultimately show "length (fold (\<lambda>loser cs''. updateEloRatings cs'' x loser False) ls a) = length cs
      \<and> total (fold (\<lambda>loser cs''. updateEloRatings cs'' x loser False) ls a) = total cs"
    using draw_fold_total [of x a ls False] a by simp
qed simp

lemma colors_complete [simp]: "colors (complete s) = colors s"
  by (simp add: complete_def)

lemma colors_nextBatch [simp]: "colors (snd (nextBatch s e)) = colors s"
  by (simp add: nextBatch_def Let_def split: sum.splits)

lemma colors_checkForNewFavorites [simp]: "colors (checkForNewFavorites s) = colors s"
  by (simp add: checkForNewFavorites_def Let_def split: list.splits)

lemma analytics_checkForNewFavorites [simp]: "analytics (checkForNewFavorites s) = analytics s"
  by (simp add: checkForNewFavorites_def Let_def split: list.splits)

lemma maxComparisons_checkForNewFavorites [simp]:
  "maxComparisons (checkForNewFavorites s) = maxComparisons s"
  by (simp add: checkForNewFavorites_def Let_def split: list.splits)

lemma colors_pick:
  "colors (snd (pick s picked e)) =
     (case evaluating s of None \<Rightarrow> colors s
      | Some ev \<Rightarrow>
          if picked = [] \<or> capReached s then colors s
          else (let winners = filter (\<lambda>c. color_id (colors s ! c) \<in> set picked) ev;
                    losers = filter (\<lambda>c. color_id (colors s ! c) \<notin> set picked) ev;
                    cs1 = winAll winners losers (colors s)
                in if length winners > 1 then drawAllPairs winners cs1 else cs1))"
  by (simp add: pick_def Let_def split: option.splits)

lemma colors_pass:
  "colors (snd (pass s e)) =
     (case evaluating s of None \<Rightarrow> colors s
      | Some ev \<Rightarrow> if capReached s then colors s else drawAllPairs ev (colors s))"
  by (simp add: pass_def Let_def split: option.splits)

lemma total_pick:
  assumes "refsValid s"
  shows "length (colors (snd (pick s picked e))) = length (colors s)
     \<and> total (colors (snd (pick s picked e))) = total (colors s)"
proof (cases "evaluating s")
  case None
  then show ?thesis by (simp add: colors_pick)
next
  case (Some ev)
  let ?ws = "filter (\<lambda>c. color_id (colors s ! c) \<in> set picked) ev"
  let ?ls = "filter (\<lambda>c. color_id (colors s ! c) \<notin> set picked) ev"
  have ev: "list_all (\<lambda>c. c < length (colors s)) ev"
    using assms Some by (simp add: refsValid_def)
  then have w: "list_all (\<lambda>c. c < length (colors s)) ?ws"
    and l: "list_all (\<lambda>c. c < length (colors s)) ?ls"
    by (simp_all add: list_all_iff)
  note a = winAll_total [OF w l]
  then have "list_all (\<lambda>c. c < length (winAll ?ws ?ls (colors s))) ?ws"
    using w by simp
  from drawAllPairs_total [OF this] a Some show ?thesis
    by (simp add: colors_pick Let_def)
qed

lemma total_pass:
  assumes "refsValid s"
  shows "length (colors (snd (pass s e))) = length (colors s)
     \<and> total (colors (snd (pass s e))) = total (colors s)"
  using assms drawAllPairs_total [of "colors s"]
  by (simp add: colors_pass refsValid_def split: option.splits)


section \<open>Invalid states, restoring and the elimination pass\<close>

lemma colorMap_one: "colorMap [c] = [color_id c \<mapsto> 0]"
  by (simp add: colorMap_def)

lemma construct_oneItem: "EloPickerState oneItemOptions demoEnv = Some oneItemSession"
  by (simp add: EloPickerState_def oneItemOptions_def oneItemSession_def or_nat_def demoEnv_def
      freshAnalytics_def)

lemma restore_lowRated: "restoreState oneItemSession lowRatedSnapshot demoEnv = lowRatedSession"
  by (simp add: oneItemOptions_def restoreState_def lowRatedSnapshot_def Let_def
     colorMap_one lookupAll_def overlay_def upd_def capReached_def optionsItems_def
     oneItemSession_def lowRatedSession_def freshAnalytics_def chooseSettings_def mkColor_def)

lemma restore_unknownId: "restoreState oneItemSession unknownIdSnapshot demoEnv = emptyBatchSession"
  by (simp add: oneItemOptions_def restoreState_def unknownIdSnapshot_def Let_def
     colorMap_one lookupAll_def capReached_def optionsItems_def
     oneItemSession_def emptyBatchSession_def freshAnalytics_def chooseSettings_def)

lemma available_lowRated: "availableRefs lowRatedSession = [0]"
  by (simp add: availableRefs_def lowRatedSession_def oneItemSession_def)

lemma eliminationPass_lowRated: "eliminationPass (colors lowRatedSession) [0] = [0]"
  by (simp add: eliminationPass_def lowRatedSession_def oneItemSession_def sortByRating_def or_real_def)

lemma nextBatch_lowRated:
  "nextBatch lowRatedSession demoEnv =
     (Returned, lowRatedSession\<lparr>eliminated := [0], evaluating := Some [], lastActionTime := 1001\<rparr>)"
  by (simp add: nextBatch_def available_lowRated eliminationPass_lowRated capReached_def
      selectDiverseBatch_def)
    (simp add: lowRatedSession_def oneItemSession_def demoEnv_def freshAnalytics_def)

lemma pass_lowRated:
  "fst (pass lowRatedSession demoEnv) = Returned
   \<and> availableRefs (snd (pass lowRatedSession demoEnv)) = []
   \<and> evaluating (snd (pass lowRatedSession demoEnv)) = Some []
   \<and> sessionComplete (snd (pass lowRatedSession demoEnv)) = False"
proof -
  define s1 where "s1 = lowRatedSession\<lparr>analytics :=
      freshAnalytics\<lparr>totalComparisons := 10, sessionComparisons := 11, picks := 10,
        passes := 1, decisionTimes := [-1], averageDecisionTime := -1\<rparr>\<rparr>"
  have p: "pass lowRatedSession demoEnv = nextBatch s1 demoEnv"
    by (simp add: pass_def Let_def capReached_def recordDecision_def s1_def
        lowRatedSession_def oneItemSession_def freshAnalytics_def demoEnv_def)
  have a: "availableRefs s1 = [0]"
    by (simp add: availableRefs_def s1_def lowRatedSession_def oneItemSession_def)
  have e: "eliminationPass (colors s1) [0] = [0]"
    using eliminationPass_lowRated by (simp add: s1_def)
  have "nextBatch s1 demoEnv =
     (Returned, s1\<lparr>eliminated := [0], evaluating := Some [], lastActionTime := 1001\<rparr>)"
    by (simp add: nextBatch_def a e capReached_def selectDiverseBatch_def)
      (simp add: s1_def lowRatedSession_def oneItemSession_def demoEnv_def freshAnalytics_def)
  then show ?thesis
    by (simp add: p) (simp add: availableRefs_def s1_def lowRatedSession_def oneItemSession_def)
qed

lemma pass_after_elimination:
  "sessionComparisons (analytics (snd (pass (snd (nextBatch lowRatedSession demoEnv)) demoEnv))) = 11
   \<and> passes (analytics (snd (pass (snd (nextBatch lowRatedSession demoEnv)) demoEnv))) = 1
   \<and> sessionComplete (snd (pass (snd (nextBatch lowRatedSession demoEnv)) demoEnv))"
  by (simp add: nextBatch_lowRated pass_def Let_def capReached_def recordDecision_def)
    (simp add: lowRatedSession_def oneItemSession_def freshAnalytics_def nextBatch_def
      capReached_def availableRefs_def complete_def)

text \<open>
  C3, evaluated on the code. A session over one item is restored from a snapshot taken in
  its eleventh round, in which the item has rating 0 and 8 comparisons. The elimination
  pass of \<open>nextBatch\<close> then removes the only active item: the threshold falls back to 1500
  and the item is more than 200 below it. The call returns with an empty batch and
  \<open>sessionComplete\<close> still false; a pass on that empty batch is counted as the eleventh
  round, and only then is the session complete. The same happens when \<open>nextBatch\<close> is
  reached through a pass on the restored session.
\<close>

theorem elimination_empties_active_set:
  "EloPickerState oneItemOptions demoEnv = Some oneItemSession
   \<and> restoreState oneItemSession lowRatedSnapshot demoEnv = lowRatedSession
   \<and> fst (nextBatch lowRatedSession demoEnv) = Returned
   \<and> availableRefs (snd (nextBatch lowRatedSession demoEnv)) = []
   \<and> evaluating (snd (nextBatch lowRatedSession demoEnv)) = Some []
   \<and> sessionComplete (snd (nextBatch lowRatedSession demoEnv)) = False
   \<and> sessionComparisons (analytics (snd (pass (snd (nextBatch lowRatedSession demoEnv)) demoEnv))) = 11
   \<and> sessionComplete (snd (pass (snd (nextBatch lowRatedSession demoEnv)) demoEnv)) = True
   \<and> availableRefs (snd (pass lowRatedSession demoEnv)) = []
   \<and> evaluating (snd (pass lowRatedSession demoEnv)) = Some []
   \<and> sessionComplete (snd (pass lowRatedSession demoEnv)) = False"
proof -
  have "fst (nextBatch lowRatedSession demoEnv) = Returned
    \<and> availableRefs (snd (nextBatch lowRatedSession demoEnv)) = []
    \<and> evaluating (snd (nextBatch lowRatedSession demoEnv)) = Some []
    \<and> sessionComplete (snd (nextBatch lowRatedSession demoEnv)) = False"
    by (simp add: nextBatch_lowRated)
      (simp add: availableRefs_def lowRatedSession_def oneItemSession_def)
  then show ?thesis
    using construct_oneItem restore_lowRated pass_after_elimination pass_lowRated by blast
qed

text \<open>
  C5 (as the code has it). When there is no batch (\<open>evaluating\<close> is null), \<open>pick\<close> and
  \<open>pass\<close> return the session as it is; so does \<open>pick\<close> with an empty list of ids. Every
  field of the session is then unchanged: the statistics of every item, the eliminated and
  favourite lists and all analytics.
\<close>

theorem no_batch_is_noop:
  "(evaluating s = None \<longrightarrow> pick s picked e = (Returned, s) \<and> pass s e = (Returned, s))
   \<and> pick s [] e = (Returned, s)"
  by (simp add: pick_def pass_def split: option.splits)

theorem no_batch_is_noop_witness:
  "pick oneItemSession [''a''] demoEnv = (Returned, oneItemSession)
   \<and> pass oneItemSession demoEnv = (Returned, oneItemSession)
   \<and> pick lowRatedSession [] demoEnv = (Returned, lowRatedSession)"
  using no_batch_is_noop [of oneItemSession "[''a'']" demoEnv]
    no_batch_is_noop [of lowRatedSession "[]" demoEnv]
  by (simp add: oneItemSession_def)

lemma analytics_nextBatch [simp]: "analytics (snd (nextBatch s e)) = analytics s"
  by (simp add: nextBatch_def Let_def complete_def split: sum.splits)

lemma sessionComparisons_recordDecision [simp]:
  "sessionComparisons (recordDecision s t) = sessionComparisons (analytics s)"
  by (simp add: recordDecision_def Let_def)

lemma pass_counts:
  assumes "evaluating s = Some ev" "\<not> capReached s"
  shows "sessionComparisons (analytics (snd (pass s e))) = sessionComparisons (analytics s) + 1"
  using assms by (simp add: pass_def Let_def)

lemma pass_emptyBatch:
  "sessionComparisons (analytics (snd (pass emptyBatchSession demoEnv))) = 1"
  using pass_counts [of emptyBatchSession "[]" demoEnv]
  by (simp add: emptyBatchSession_def oneItemSession_def freshAnalytics_def capReached_def)

text \<open>
  C5 as the claim words it fails for a batch that is an empty sequence: restoring a
  snapshot whose batch names only an id the pool does not have leaves \<open>evaluating = []\<close>,
  and a pass on that session counts as a round.
\<close>

theorem empty_batch_counterexample:
  "restoreState oneItemSession unknownIdSnapshot demoEnv = emptyBatchSession
   \<and> evaluating emptyBatchSession = Some []
   \<and> sessionComparisons (analytics (snd (pass emptyBatchSession demoEnv)))
       \<noteq> sessionComparisons (analytics emptyBatchSession)"
  by (simp add: restore_unknownId pass_emptyBatch)
    (simp add: emptyBatchSession_def oneItemSession_def freshAnalytics_def)

text \<open>
  C9. Restoring a snapshot whose analytics report at least as many session comparisons as
  the round cap yields a complete session without a batch, whatever the snapshot's own
  \<open>sessionComplete\<close> flag says; the session then reports \<open>sessionComplete\<close> true and an
  empty batch.
\<close>

theorem restore_at_cap:
  assumes "snap_analytics snap = Some a" and "sessionComparisons a \<ge> maxComparisons s"
  shows "sessionComplete (restoreState s snap e) = True
    \<and> evaluating (restoreState s snap e) = None
    \<and> snap_sessionComplete (getState (restoreState s snap e)) = Some True
    \<and> snap_evaluating (getState (restoreState s snap e)) = Some []"
  using assms by (simp add: restoreState_def Let_def capReached_def getState_def)

theorem restore_at_cap_witness:
  "snap_sessionComplete cappedSnapshot = Some False
   \<and> sessionComplete (restoreState oneItemSession cappedSnapshot demoEnv) = True
   \<and> evaluating (restoreState oneItemSession cappedSnapshot demoEnv) = None"
  using restore_at_cap [of cappedSnapshot
      "freshAnalytics\<lparr>totalComparisons := 20, sessionComparisons := 20, picks := 20\<rparr>"
      oneItemSession demoEnv]
  by (simp add: cappedSnapshot_def lowRatedSnapshot_def oneItemSession_def)



section \<open>A pick on a pool of three items\<close>

lemma expected_lt_half:
  assumes "a < b"
  shows "calculateExpectedScore a b < 1 / 2"
proof -
  have "10 powr 0 < (10::real) powr ((b - a) / 400)"
    using assms by (intro powr_less_mono) simp_all
  then have "1 < (10::real) powr ((b - a) / 400)" by simp
  then show ?thesis
    by (simp add: calculateExpectedScore_def field_simps)
qed

lemma construct_threeItem:
  "EloPickerState threeItemOptions demoEnv = Some (threeItemSession\<lparr>colors := [], evaluating := None, settings := None\<rparr>)"
  by (simp add: EloPickerState_def threeItemOptions_def threeItemSession_def or_nat_def demoEnv_def
      freshAnalytics_def)

lemma initialize_threeItem:
  "initialize (threeItemSession\<lparr>colors := [], evaluating := None, settings := None\<rparr>) None demoEnv
     = (Returned, threeItemSession)"
  apply (simp add: initialize_def)
 apply (simp add: threeItemSession_def threeItemOptions_def optionsItems_def chooseSettings_def threeItems_def adoptItem_def or_real_def)
  apply (simp add: nextBatch_def capReached_def freshAnalytics_def availableRefs_def)
  apply (simp add: selectDiverseBatch_def demoEnv_def mkColor_def)
  done

lemma winAll_single:
  "winAll [w] [a, b] cs = updateEloRatings (updateEloRatings cs w a False) w b False"
  by (simp add: winAll_def)

lemma three_item_colors:
  assumes "colors s = [c1, c2, c3]"
    and "evaluating s = Some [0, 1, 2]" and "\<not> capReached s"
    and "color_id c2 \<noteq> color_id c1" and "color_id c3 \<noteq> color_id c1"
  shows "colors (snd (pick s [color_id c1] e))
    = updateEloRatings (updateEloRatings [c1, c2, c3] 0 1 False) 0 2 False"
  using assms by (simp add: colors_pick Let_def winAll_single)

lemma first_update:
  assumes "list_all (\<lambda>c. eloRating c = 1500 \<and> comparisons c = 0 \<and> wins c = 0 \<and> losses c = 0) [c1, c2, c3]"
  shows "updateEloRatings [c1, c2, c3] 0 1 False
    = [c1\<lparr>eloRating := 1532, comparisons := 1, wins := 1\<rparr>,
       c2\<lparr>eloRating := 1468, comparisons := 1, losses := 1\<rparr>, c3]"
  using assms by (simp add: updateEloRatings_def Let_def upd_def)

lemma three_item_result:
  assumes "colors s = [c1, c2, c3]"
    and "list_all (\<lambda>c. eloRating c = 1500 \<and> comparisons c = 0 \<and> wins c = 0 \<and> losses c = 0) [c1, c2, c3]"
    and "evaluating s = Some [0, 1, 2]" and "\<not> capReached s"
    and "color_id c2 \<noteq> color_id c1" and "color_id c3 \<noteq> color_id c1"
  shows "colors (snd (pick s [color_id c1] e))
    = [c1\<lparr>eloRating := 1532 + 62 * calculateExpectedScore 1500 1532, comparisons := 2, wins := 2\<rparr>,
       c2\<lparr>eloRating := 1468, comparisons := 1, losses := 1\<rparr>,
       c3\<lparr>eloRating := 1500 - 62 * calculateExpectedScore 1500 1532, comparisons := 1,
         losses := 1\<rparr>]"
proof -
  have eW: "calculateExpectedScore 1532 1500 = 1 - calculateExpectedScore 1500 1532"
    using expected_sum [of 1532 1500] by linarith
  show ?thesis
    using assms(2)
    by (simp add: three_item_colors [OF assms(1,3-6)] first_update [OF assms(2)])
      (simp add: updateEloRatings_def Let_def upd_def eW)
qed

lemma three_item_concrete:
  "colors (snd (pick threeItemSession [''item1''] demoEnv))
    = [mkColor ''item1'' 0 (1532 + 62 * calculateExpectedScore 1500 1532) 2 2 0,
       mkColor ''item2'' 120 1468 1 0 1,
       mkColor ''item3'' 240 (1500 - 62 * calculateExpectedScore 1500 1532) 1 0 1]"
  using three_item_result [of threeItemSession "threeItems ! 0" "threeItems ! 1" "threeItems ! 2" demoEnv]
  by (simp add: threeItemSession_def threeItems_def capReached_def freshAnalytics_def mkColor_def)

text \<open>
  C2 (as the code has it). Pool of three items, all rated 1500 with no comparisons, wins or
  losses; the batch is the three of them in pool order; only the first item's id is
  picked. The pick is two pairwise updates of item 1, against item 2 and then against
  item 3. Item 1 ends above 1500 with 2 comparisons and 2 wins; item 2 loses exactly 32;
  item 3 loses less than 31 (item 1 is by then rated 1532 and its K-factor is 62); items 2
  and 3 have 1 comparison and 1 loss each.
\<close>

theorem three_item_pick:
  assumes "colors s = [c1, c2, c3]"
    and "list_all (\<lambda>c. eloRating c = 1500 \<and> comparisons c = 0 \<and> wins c = 0 \<and> losses c = 0) [c1, c2, c3]"
    and "evaluating s = Some [0, 1, 2]" and "\<not> capReached s"
    and "color_id c2 \<noteq> color_id c1" and "color_id c3 \<noteq> color_id c1"
  shows "eloRating (colors (snd (pick s [color_id c1] e)) ! 0) > 1500
    \<and> eloRating (colors (snd (pick s [color_id c1] e)) ! 1) = 1500 - 32
    \<and> eloRating (colors (snd (pick s [color_id c1] e)) ! 2) > 1500 - 31
    \<and> eloRating (colors (snd (pick s [color_id c1] e)) ! 2) < 1500
    \<and> comparisons (colors (snd (pick s [color_id c1] e)) ! 0) = 2
    \<and> comparisons (colors (snd (pick s [color_id c1] e)) ! 1) = 1
    \<and> comparisons (colors (snd (pick s [color_id c1] e)) ! 2) = 1
    \<and> wins (colors (snd (pick s [color_id c1] e)) ! 0) = 2
    \<and> losses (colors (snd (pick s [color_id c1] e)) ! 1) = 1
    \<and> losses (colors (snd (pick s [color_id c1] e)) ! 2) = 1"
  using expected_pos [of 1500 1532] expected_lt_half [of 1500 1532]
  by (simp add: three_item_result [OF assms])

theorem three_item_pick_witness:
  "eloRating (colors (snd (pick threeItemSession [''item1''] demoEnv)) ! 0) > 1500
   \<and> eloRating (colors (snd (pick threeItemSession [''item1''] demoEnv)) ! 1) = 1468
   \<and> eloRating (colors (snd (pick threeItemSession [''item1''] demoEnv)) ! 2) > 1469
   \<and> comparisons (colors (snd (pick threeItemSession [''item1''] demoEnv)) ! 0) = 2
   \<and> wins (colors (snd (pick threeItemSession [''item1''] demoEnv)) ! 0) = 2"
  using three_item_pick [of threeItemSession "threeItems ! 0" "threeItems ! 1" "threeItems ! 2" demoEnv]
  by (simp add: threeItemSession_def threeItems_def capReached_def freshAnalytics_def)

text \<open>
  C2 as the claim words it fails on the session that \<open>initialize\<close> builds from three
  supplied items: item 1 has 2 comparisons and 2 wins, and items 2 and 3 lose different
  amounts.
\<close>

theorem three_item_counterexample:
  "initialize (threeItemSession\<lparr>colors := [], evaluating := None, settings := None\<rparr>) None demoEnv
     = (Returned, threeItemSession)
   \<and> \<not> (eloRating (colors (snd (pick threeItemSession [''item1''] demoEnv)) ! 0) > 1500
     \<and> eloRating (colors (snd (pick threeItemSession [''item1''] demoEnv)) ! 1)
           - eloRating (colors threeItemSession ! 1)
         = eloRating (colors (snd (pick threeItemSession [''item1''] demoEnv)) ! 2)
           - eloRating (colors threeItemSession ! 2)
     \<and> comparisons (colors (snd (pick threeItemSession [''item1''] demoEnv)) ! 0) = 1
     \<and> comparisons (colors (snd (pick threeItemSession [''item1''] demoEnv)) ! 1) = 1
     \<and> comparisons (colors (snd (pick threeItemSession [''item1''] demoEnv)) ! 2) = 1
     \<and> wins (colors (snd (pick threeItemSession [''item1''] demoEnv)) ! 0) = 1
     \<and> losses (colors (snd (pick threeItemSession [''item1''] demoEnv)) ! 1) = 1
     \<and> losses (colors (snd (pick threeItemSession [''item1''] demoEnv)) ! 2) = 1)"
  by (simp add: initialize_threeItem three_item_concrete)



section \<open>The invariant of the statistics\<close>

lemma nth_upd_gen: "j < length cs \<Longrightarrow> upd i f cs ! j = (if j = i then f (cs ! j) else cs ! j)"
  by (auto simp: upd_def)

lemma statsOk_updateEloRatings:
  assumes "list_all statsOk cs"
  shows "list_all statsOk (updateEloRatings cs w l d)"
  unfolding list_all_length
proof (intro allI impI)
  fix j assume "j < length (updateEloRatings cs w l d)"
  then have j: "j < length cs" by simp
  then have "statsOk (cs ! j)" using assms by (simp add: list_all_length)
  then show "statsOk (updateEloRatings cs w l d ! j)"
    using j by (auto simp: updateEloRatings_def Let_def nth_upd_gen statsOk_def)
qed

lemma scaled_step:
  fixes K x :: real
  assumes "0 \<le> K" "K \<le> 64" "\<bar>x\<bar> \<le> 1"
  shows "\<bar>K * x\<bar> \<le> 64"
proof -
  have "\<bar>K * x\<bar> = K * \<bar>x\<bar>" using assms(1) by (simp add: abs_mult)
  also have "\<dots> \<le> 64 * 1" using assms by (intro mult_mono) simp_all
  finally show ?thesis by simp
qed

lemma step_bounds:
  fixes a b :: real and n :: nat
  shows "\<bar>max 32 (64 - real n * 2) * (1 - calculateExpectedScore a b)\<bar> \<le> 64"
    and "\<bar>max 32 (64 - real n * 2) * (0 - calculateExpectedScore a b)\<bar> \<le> 64"
    and "\<bar>max 32 (64 - real n * 2) * (0.5 - calculateExpectedScore a b)\<bar> \<le> 64"
proof -
  define K where "K = max 32 (64 - real n * 2)"
  define E where "E = calculateExpectedScore a b"
  have K: "0 \<le> K" "K \<le> 64" by (simp_all add: K_def)
  have E: "0 < E" "E < 1" by (simp_all add: E_def expected_pos expected_lt_one)
  have "\<bar>K * (1 - E)\<bar> \<le> 64" using K E by (intro scaled_step) simp_all
  moreover have "\<bar>K * (0 - E)\<bar> \<le> 64" using K E by (intro scaled_step) simp_all
  moreover have "\<bar>K * (0.5 - E)\<bar> \<le> 64" using K E by (intro scaled_step) simp_all
  ultimately show "\<bar>max 32 (64 - real n * 2) * (1 - calculateExpectedScore a b)\<bar> \<le> 64"
    and "\<bar>max 32 (64 - real n * 2) * (0 - calculateExpectedScore a b)\<bar> \<le> 64"
    and "\<bar>max 32 (64 - real n * 2) * (0.5 - calculateExpectedScore a b)\<bar> \<le> 64"
    by (simp_all add: K_def E_def)
qed

lemma drift_refl: "drift cs cs"
  by (simp add: drift_def list_all_iff)

lemma drift_trans:
  assumes "drift a b" "drift b c"
  shows "drift a c"
  unfolding drift_def list_all_iff
proof (intro conjI ballI)
  show "length c = length a" using assms by (simp add: drift_def)
next
  fix i assume "i \<in> set [0..<length a]"
  then have i: "i \<in> set [0..<length a]" "i \<in> set [0..<length b]"
    using assms by (simp_all add: drift_def)
  have 1: "\<bar>eloRating (b ! i) - eloRating (a ! i)\<bar>
      \<le> 64 * (real (comparisons (b ! i)) - real (comparisons (a ! i)))"
    using assms(1) i(1) unfolding drift_def list_all_iff by blast
  have 2: "\<bar>eloRating (c ! i) - eloRating (b ! i)\<bar>
      \<le> 64 * (real (comparisons (c ! i)) - real (comparisons (b ! i)))"
    using assms(2) i(2) unfolding drift_def list_all_iff by blast
  show "\<bar>eloRating (c ! i) - eloRating (a ! i)\<bar>
      \<le> 64 * (real (comparisons (c ! i)) - real (comparisons (a ! i)))"
    using 1 2 by argo
qed

lemma drift_updateEloRatings: "drift cs (updateEloRatings cs w l d)"
  unfolding drift_def list_all_iff
proof (intro conjI ballI)
  show "length (updateEloRatings cs w l d) = length cs" by simp
next
  fix j assume "j \<in> set [0..<length cs]"
  then have j: "j < length cs" by simp
  define K where "K = max 32 (64 - real (comparisons (cs ! w)) * 2)"
  define eW where "eW = calculateExpectedScore (eloRating (cs ! w)) (eloRating (cs ! l))"
  define eL where "eL = calculateExpectedScore (eloRating (cs ! l)) (eloRating (cs ! w))"
  define dW where "dW = (if d then K * (0.5 - eW) else K * (1 - eW))"
  define dL where "dL = (if d then K * (0.5 - eL) else K * (0 - eL))"
  have bW: "\<bar>dW\<bar> \<le> 64"
    using step_bounds [of "comparisons (cs ! w)" "eloRating (cs ! w)" "eloRating (cs ! l)"]
    by (simp add: dW_def K_def eW_def)
  have bL: "\<bar>dL\<bar> \<le> 64"
    using step_bounds [of "comparisons (cs ! w)" "eloRating (cs ! l)" "eloRating (cs ! w)"]
    by (simp add: dL_def K_def eL_def)
  have r: "eloRating (updateEloRatings cs w l d ! j)
      = eloRating (cs ! j) + (if j = w then dW else 0) + (if j = l then dL else 0)"
    using j
    by (simp add: updateEloRatings_def Let_def nth_upd_gen dW_def dL_def K_def eW_def eL_def)
  have c: "comparisons (updateEloRatings cs w l d ! j)
      = comparisons (cs ! j) + (if j = w then 1 else 0) + (if j = l then 1 else 0)"
    using j by (simp add: updateEloRatings_def Let_def nth_upd_gen)
  show "\<bar>eloRating (updateEloRatings cs w l d ! j) - eloRating (cs ! j)\<bar>
      \<le> 64 * (real (comparisons (updateEloRatings cs w l d ! j)) - real (comparisons (cs ! j)))"
    unfolding r c using bW bL by (cases "j = w"; cases "j = l") simp_all
qed

lemma poolInv_updateEloRatings:
  "poolInv cs0 cs \<Longrightarrow> poolInv cs0 (updateEloRatings cs w l d)"
  unfolding poolInv_def
  using statsOk_updateEloRatings drift_trans [OF _ drift_updateEloRatings] by blast

lemma poolInv_drawAllPairs: "poolInv cs0 cs \<Longrightarrow> poolInv cs0 (drawAllPairs xs cs)"
proof (induction xs arbitrary: cs)
  case Nil
  then show ?case by simp
next
  case (Cons x xs)
  have "poolInv cs0 (fold (\<lambda>y cs'. updateEloRatings cs' x y True) xs cs)"
    using Cons.prems by (intro fold_invariant [where I = "poolInv cs0"] poolInv_updateEloRatings)
  then show ?case using Cons.IH by simp
qed

lemma poolInv_winAll: "poolInv cs0 cs \<Longrightarrow> poolInv cs0 (winAll ws ls cs)"
  unfolding winAll_def
  by (intro fold_invariant [where I = "poolInv cs0"] poolInv_updateEloRatings)

lemma poolInv_pick: "poolInv cs0 (colors s) \<Longrightarrow> poolInv cs0 (colors (snd (pick s picked e)))"
  by (simp add: colors_pick Let_def poolInv_drawAllPairs poolInv_winAll split: option.splits)

lemma poolInv_pass: "poolInv cs0 (colors s) \<Longrightarrow> poolInv cs0 (colors (snd (pass s e)))"
  by (simp add: colors_pass poolInv_drawAllPairs split: option.splits)

lemma poolInv_decide: "poolInv cs0 (colors s) \<Longrightarrow> poolInv cs0 (colors (decide s d))"
  by (cases d) (simp_all add: poolInv_pick poolInv_pass)

lemma poolInv_run: "poolInv cs0 (colors s) \<Longrightarrow> poolInv cs0 (colors (run s ds))"
  unfolding run_def
  by (rule fold_invariant [where I = "\<lambda>s. poolInv cs0 (colors s)"]) (simp_all add: poolInv_decide)

lemma statsOk_genLoop: "list_all statsOk (genLoop n i hue)"
  by (induction n arbitrary: i hue) (simp_all add: Let_def statsOk_def)

lemma statsOk_adoptItem [simp]: "statsOk (adoptItem c) = statsOk c"
  by (simp add: adoptItem_def statsOk_def)

lemma colors_initialize:
  "colors (snd (initialize s given e)) =
     (if generateColors (options s) \<noteq> Some False then
        generatePerceptuallyDistinctColors (or_nat (colorCount (options s)) 200) (rand e 0)
      else map adoptItem (case optionsItems s of None \<Rightarrow> [] | Some xs \<Rightarrow> xs))"
  by (simp add: initialize_def)

lemma constructed:
  assumes "EloPickerState opts e = Some s"
  shows "options s = opts" "itemsShared s = False" "colors s = []" "evaluating s = None"
    "sessionComplete s = False" "sessionComparisons (analytics s) = 0"
    "maxComparisons s = or_nat (opt_maxComparisons opts) 20"
  using assms by (auto simp: EloPickerState_def split: if_splits)

lemma statsOk_initialize:
  assumes "EloPickerState opts e0 = Some s0"
    and "generateColors opts = Some False
      \<Longrightarrow> list_all statsOk (case items opts of None \<Rightarrow> [] | Some xs \<Rightarrow> xs)"
  shows "list_all statsOk (colors (snd (initialize s0 given e)))"
proof (cases "generateColors opts = Some False")
  case True
  then show ?thesis
    using assms(2)
    by (auto simp: colors_initialize constructed [OF assms(1)] optionsItems_def list_all_iff
        split: option.splits)
next
  case False
  then show ?thesis
    by (simp add: colors_initialize constructed [OF assms(1)]
        generatePerceptuallyDistinctColors_def statsOk_genLoop)
qed

text \<open>
  C6. From a freshly initialized session (generated items, or supplied items that satisfy
  the invariant of their statistics), after every sequence of picks and passes every item
  of the pool has \<open>wins + losses \<le> comparisons\<close>, and its rating, a real number, is
  within 64 per comparison of the rating it was initialized with.
\<close>

theorem stats_invariant:
  assumes "EloPickerState opts e0 = Some s0"
    and "generateColors opts = Some False
      \<Longrightarrow> list_all statsOk (case items opts of None \<Rightarrow> [] | Some xs \<Rightarrow> xs)"
  shows "list_all statsOk (colors (run (snd (initialize s0 given e)) ds))
    \<and> drift (colors (snd (initialize s0 given e))) (colors (run (snd (initialize s0 given e)) ds))"
proof -
  have "poolInv (colors (snd (initialize s0 given e))) (colors (snd (initialize s0 given e)))"
    using statsOk_initialize [OF assms] by (simp add: poolInv_def drift_refl)
  then have "poolInv (colors (snd (initialize s0 given e)))
      (colors (run (snd (initialize s0 given e)) ds))"
    by (rule poolInv_run)
  then show ?thesis by (simp add: poolInv_def)
qed

theorem stats_invariant_witness:
  "list_all statsOk (colors (run threeItemSession [Pick [''item1''] demoEnv, Pass demoEnv]))
   \<and> drift threeItems (colors (run threeItemSession [Pick [''item1''] demoEnv, Pass demoEnv]))"
  using stats_invariant [of threeItemOptions demoEnv
      "threeItemSession\<lparr>colors := [], evaluating := None, settings := None\<rparr>" None demoEnv
      "[Pick [''item1''] demoEnv, Pass demoEnv]"]
  by (simp add: construct_threeItem initialize_threeItem)
    (simp add: threeItemOptions_def threeItems_def statsOk_def threeItemSession_def)



section \<open>The batch selector and the first batch\<close>

lemma random_index:
  assumes "0 \<le> r" "r < 1" "0 < n"
  shows "nat \<lfloor>r * real n\<rfloor> < n"
proof -
  have "r * real n < real n" using assms by simp
  then have "\<lfloor>r * real n\<rfloor> < int n" by (simp add: floor_less_iff)
  then show ?thesis using assms by linarith
qed

lemma sortByRating_props [simp]:
  "set (sortByRating cs xs) = set xs" "distinct (sortByRating cs xs) = distinct xs"
  "length (sortByRating cs xs) = length xs"
  by (simp_all add: sortByRating_def)

lemma sortByHue_props [simp]:
  "set (sortByHue cs xs) = set xs" "distinct (sortByHue cs xs) = distinct xs"
  "length (sortByHue cs xs) = length xs"
  by (simp_all add: sortByHue_def)

lemma highRated_props:
  assumes "distinct (batch @ xs)"
  shows "distinct (fst (highRated cs rnd cnt xs k batch used))
    \<and> set (fst (highRated cs rnd cnt xs k batch used)) \<subseteq> set batch \<union> set xs
    \<and> length (fst (highRated cs rnd cnt xs k batch used)) \<le> max (length batch) cnt"
  using assms
proof (induction xs arbitrary: k batch used)
  case Nil
  then show ?case by simp
next
  case (Cons c rest)
  have 1: "distinct ((batch @ [c]) @ rest)" and 2: "distinct (batch @ rest)"
    using Cons.prems by auto
  show ?case
    using Cons.IH [OF 1, of "Suc k" "insert (getHueGroup (hsl_h (cs ! c))) used"]
      Cons.IH [OF 2, of "Suc k" used] Cons.prems
    by (auto simp: max_def split: if_splits)
qed

lemma groupLoop_props:
  assumes "distinct batch" "set batch \<subseteq> A" "\<And>key. set (hueGroups key) \<subseteq> A"
    and "randomOk rnd" "length batch \<le> size_n"
  shows "distinct (fst (groupLoop rnd hueGroups size_n keys k batch used))
    \<and> set (fst (groupLoop rnd hueGroups size_n keys k batch used)) \<subseteq> A
    \<and> length (fst (groupLoop rnd hueGroups size_n keys k batch used)) \<le> size_n"
  using assms(1,2,5)
proof (induction keys arbitrary: k batch used)
  case Nil
  then show ?case by simp
next
  case (Cons key rest)
  show ?case
  proof (cases "length batch \<ge> size_n \<or> hueGroups key = [] \<or> key \<in> used")
    case True
    then show ?thesis using Cons by auto
  next
    case False
    define g where "g = hueGroups key"
    define i where "i = nat \<lfloor>rnd k * real (min 3 (length g))\<rfloor>"
    have "g \<noteq> []" using False by (simp add: g_def)
    then have "i < min 3 (length g)"
      unfolding i_def using assms(4) by (intro random_index) (simp_all add: randomOk_def)
    then have "g ! i \<in> set g" by simp
    then have in_A: "g ! i \<in> A" using assms(3) [of key] by (auto simp: g_def)
    show ?thesis
    proof (cases "g ! i \<in> set batch")
      case True
      then show ?thesis
        using False Cons.IH [OF Cons.prems, of "Suc k" used]
        by (simp add: Let_def g_def i_def)
    next
      case new: False
      have "distinct (batch @ [g ! i])" "set (batch @ [g ! i]) \<subseteq> A"
        "length (batch @ [g ! i]) \<le> size_n"
        using new Cons.prems in_A False by auto
      from Cons.IH [OF this, of "Suc k" "insert key used"] new False
      show ?thesis by (simp add: Let_def g_def i_def)
    qed
  qed
qed

lemma fillLoop_props:
  assumes "distinct (batch @ remaining)" "randomOk rnd"
    and "length batch \<le> size_n" "size_n \<le> length batch + length remaining"
  shows "distinct (fillLoop rnd size_n k batch remaining)
    \<and> set (fillLoop rnd size_n k batch remaining) \<subseteq> set batch \<union> set remaining
    \<and> length (fillLoop rnd size_n k batch remaining) = size_n"
  using assms
proof (induction rnd size_n k batch remaining rule: fillLoop.induct)
  case (1 rnd size_n k batch remaining)
  show ?case
  proof (cases "length batch < size_n \<and> remaining \<noteq> []")
    case False
    then show ?thesis using "1.prems" by (auto simp: fillLoop.simps [of rnd size_n k batch remaining])
  next
    case True
    define i where "i = nat \<lfloor>rnd k * real (length remaining)\<rfloor>"
    define rest where "rest = take i remaining @ drop (Suc i) remaining"
    have i: "i < length remaining"
      unfolding i_def using True "1.prems"(2) by (intro random_index) (simp_all add: randomOk_def)
    then have split: "remaining = take i remaining @ remaining ! i # drop (Suc i) remaining"
      by (rule id_take_nth_drop)
    have "distinct (batch @ take i remaining @ remaining ! i # drop (Suc i) remaining)"
      using "1.prems"(1) split by simp
    then have d: "distinct ((batch @ [remaining ! i]) @ rest)"
      by (auto simp: rest_def)
    have s: "set rest \<union> {remaining ! i} = set remaining"
      using arg_cong [OF split, of set] by (auto simp: rest_def)
    have l: "length rest = length remaining - 1"
      using i by (simp add: rest_def)
    have "length (batch @ [remaining ! i]) \<le> size_n"
      "size_n \<le> length (batch @ [remaining ! i]) + length rest"
      using True "1.prems" l i by simp_all
    from "1.IH" [OF True i_def d [unfolded rest_def] "1.prems"(2) this [unfolded rest_def]] s
    show ?thesis
      using True by (auto simp: fillLoop.simps [of rnd size_n k batch remaining] Let_def i_def rest_def)
  qed
qed

lemma getHueGroup_nonneg: "0 \<le> h \<Longrightarrow> 0 \<le> getHueGroup h"
  by (simp add: getHueGroup_def js_rem_def pos_imp_zdiv_nonneg_iff sgn_if)

lemma groupByHue_Some:
  assumes "list_all (\<lambda>c. 0 \<le> hsl_h (cs ! c)) available"
  shows "groupByHue cs available
    = Some (\<lambda>k. sortByRating cs (filter (\<lambda>c. getHueGroup (hsl_h (cs ! c)) = k) available))"
proof -
  have "\<not> list_ex (\<lambda>c. getHueGroup (hsl_h (cs ! c)) < 0) available"
    using assms getHueGroup_nonneg by (fastforce simp: list_all_iff list_ex_iff)
  then show ?thesis by (simp add: groupByHue_def)
qed

lemma length_rest:
  assumes "distinct av" "distinct b" "set b \<subseteq> set av"
  shows "length b + length (filter (\<lambda>c. c \<notin> set b) av) = length av"
proof -
  have "set (filter (\<lambda>c. c \<in> set b) av) = set b"
    using assms(3) by auto
  moreover have "distinct (filter (\<lambda>c. c \<in> set b) av)"
    using assms(1) by simp
  ultimately have "length (filter (\<lambda>c. c \<in> set b) av) = length b"
    using assms(2) by (metis distinct_card)
  then show ?thesis
    using sum_length_filter_compl [of "\<lambda>c. c \<in> set b" av] by simp
qed

lemma selectDiverseBatch_props:
  assumes "distinct available"
    and "list_all (\<lambda>c. 0 \<le> hsl_h (cs ! c)) available"
    and "randomOk (rand e)" and "3 \<le> size_n \<or> length available \<le> size_n"
  shows "\<exists>batch. selectDiverseBatch cs available size_n e = Inr batch \<and> distinct batch
    \<and> set batch \<subseteq> set available \<and> length batch = min size_n (length available)"
proof (cases "length available \<le> size_n")
  case True
  then show ?thesis using assms(1) by (simp add: selectDiverseBatch_def)
next
  case False
  then have size3: "3 \<le> size_n" using assms(4) by simp
  define hueGroups where
    "hueGroups = (\<lambda>k. sortByRating cs (filter (\<lambda>c. getHueGroup (hsl_h (cs ! c)) = k) available))"
  define startIndex where
    "startIndex = (if rand e 0 < 0.6 then nat \<lfloor>rand e 1 * 3\<rfloor> + 1 else 0)"
  define k1 :: nat where "k1 = (if rand e 0 < 0.6 then 2 else 1)"
  define cnt where "cnt = 2 + nat \<lfloor>rand e k1 * 2\<rfloor>"
  define hr where
    "hr = highRated cs (rand e) cnt (drop startIndex (sortByRating cs available)) (Suc k1) [] {}"
  define gl where
    "gl = groupLoop (rand e) hueGroups size_n (keyOrder e) (snd (snd hr) + sortDraws e)
       (fst hr) (fst (snd hr))"
  define remaining where "remaining = filter (\<lambda>c. c \<notin> set (fst gl)) available"
  define batch3 where "batch3 = fillLoop (rand e) size_n (snd gl) (fst gl) remaining"
  have res: "selectDiverseBatch cs available size_n e = Inr (sortByHue cs batch3)"
    using False
    by (simp add: selectDiverseBatch_def groupByHue_Some [OF assms(2)] Let_def split_beta
        batch3_def remaining_def gl_def hr_def cnt_def k1_def startIndex_def hueGroups_def)
  have "nat \<lfloor>rand e k1 * real 2\<rfloor> < 2"
    using assms(3) by (intro random_index) (simp_all add: randomOk_def)
  then have cnt: "cnt \<le> 3" by (simp add: cnt_def)
  have "distinct ([] @ drop startIndex (sortByRating cs available))"
    using assms(1) by simp
  from highRated_props [OF this, of cs "rand e" cnt "Suc k1" "{}"]
  have b1: "distinct (fst hr)" "set (fst hr) \<subseteq> set available" "length (fst hr) \<le> size_n"
    using cnt size3 set_drop_subset [of startIndex "sortByRating cs available"]
    by (auto simp: hr_def)
  have groups: "\<And>key. set (hueGroups key) \<subseteq> set available"
    by (auto simp: hueGroups_def)
  from groupLoop_props [OF b1(1,2) groups assms(3) b1(3)]
  have b2: "distinct (fst gl)" "set (fst gl) \<subseteq> set available" "length (fst gl) \<le> size_n"
    by (simp_all add: gl_def)
  have "length (fst gl) + length remaining = length available"
    unfolding remaining_def using assms(1) b2(1,2) by (rule length_rest)
  then have enough: "size_n \<le> length (fst gl) + length remaining"
    using False by simp
  have "distinct (fst gl @ remaining)"
    using b2(1) assms(1) by (auto simp: remaining_def)
  from fillLoop_props [OF this assms(3) b2(3) enough, of "snd gl"]
  have "distinct batch3" "set batch3 \<subseteq> set available" "length batch3 = size_n"
    using b2(2) by (auto simp: batch3_def remaining_def)
  then show ?thesis
    using False by (simp add: res)
qed

text \<open>
  C7 (as the code has it). On a list of pairwise distinct active items with non-negative
  hues, with a random source in \<open>[0, 1)\<close> and any arrangement of the group keys, and for a
  requested size of at least 3 (or one that the whole list fits in), the selector returns
  a batch of pairwise distinct items of the list whose length is the smaller of the size
  and the length of the list. \<open>nextBatch\<close> always asks for such a size.
\<close>

theorem select_batch:
  assumes "distinct available"
    and "list_all (\<lambda>c. 0 \<le> hsl_h (cs ! c)) available"
    and "randomOk (rand e)" and "3 \<le> size_n \<or> length available \<le> size_n"
  shows "\<exists>batch. selectDiverseBatch cs available size_n e = Inr batch \<and> distinct batch
    \<and> set batch \<subseteq> set available \<and> length batch = min size_n (length available)"
  using assms by (rule selectDiverseBatch_props)

theorem select_batch_witness:
  "\<exists>batch. selectDiverseBatch fourItems [0, 1, 2, 3] 3 demoEnv = Inr batch \<and> distinct batch
    \<and> set batch \<subseteq> set [0, 1, 2, 3] \<and> length batch = min 3 (length [0 :: nat, 1, 2, 3])"
proof -
  have "distinct [0 :: nat, 1, 2, 3]" by simp
  moreover have "list_all (\<lambda>c. 0 \<le> hsl_h (fourItems ! c)) [0, 1, 2, 3]"
    by (simp add: fourItems_def)
  moreover have "randomOk (rand demoEnv)" by (simp add: demoEnv_def randomOk_def)
  ultimately show ?thesis by (rule select_batch) simp
qed

lemma fillLoop_done: "remaining = [] \<or> size_n \<le> length batch \<Longrightarrow> fillLoop rnd size_n k batch remaining = batch"
  by (auto simp: fillLoop.simps [of rnd size_n k batch remaining])

lemma hueGroups_twoItems:
  "groupByHue twoItems [0, 1] = Some (\<lambda>k. sortByRating twoItems
      (filter (\<lambda>c. getHueGroup (hsl_h (twoItems ! c)) = k) [0, 1]))"
  by (simp add: groupByHue_def twoItems_def getHueGroup_def js_rem_def)

lemma sorted_twoItems: "sortByRating twoItems [0, 1] = [0, 1]"
  by (simp add: sortByRating_def twoItems_def)

lemma sortedHue_twoItems: "sortByHue twoItems [0, 1] = [0, 1]"
  by (simp add: sortByHue_def twoItems_def)

text \<open>
  C7 as the claim words it fails for a size below 3: the loop over the high-rated items
  stops at 2 or 3 items, not at the requested size. With two active items, size 1 and a
  random source that always yields 0.65, the batch has both items.
\<close>

theorem small_size_counterexample:
  "selectDiverseBatch twoItems [0, 1] 1 eagerEnv = Inr [0, 1]
   \<and> length [0, 1 :: nat] > min 1 (length [0, 1 :: nat])"
  unfolding selectDiverseBatch_def hueGroups_twoItems sorted_twoItems
  by (simp add: eagerEnv_def demoEnv_def Let_def fillLoop_done sortByHue_def twoItems_def)

lemma js_fmod1_range: "0 \<le> x \<Longrightarrow> 0 \<le> js_fmod1 x \<and> js_fmod1 x < 1"
  unfolding js_fmod1_def by (simp; linarith)

lemma genLoop_props:
  assumes "0 \<le> hue"
  shows "length (genLoop n i hue) = n \<and> list_all (\<lambda>c. 0 \<le> hsl_h c) (genLoop n i hue)"
  using assms
proof (induction n arbitrary: i hue)
  case 0
  then show ?case by simp
next
  case (Suc n)
  have g: "0 \<le> goldenRatioConjugate" by (simp add: goldenRatioConjugate_def)
  then have h: "0 \<le> js_fmod1 (hue + goldenRatioConjugate)"
    using Suc.prems js_fmod1_range [of "hue + goldenRatioConjugate"] by simp
  then have "0 \<le> js_fmod1 (hue + goldenRatioConjugate) * 360" by simp
  then show ?case
    using Suc.IH [OF h] by (simp add: Let_def)
qed

lemma or_nat_pos: "0 < d \<Longrightarrow> 0 < or_nat v d"
  by (simp add: or_nat_def split: option.splits)

lemma initialize_generated:
  assumes "generateColors (options s) \<noteq> Some False" "randomOk (rand e)" "0 < maxComparisons s"
  shows "fst (initialize s given e) = Returned
    \<and> length (colors (snd (initialize s given e))) = or_nat (colorCount (options s)) 200
    \<and> \<not> sessionComplete (snd (initialize s given e))
    \<and> (\<exists>batch. evaluating (snd (initialize s given e)) = Some batch \<and> distinct batch
          \<and> length batch = min 10 (or_nat (colorCount (options s)) 200))"
proof -
  define n where "n = or_nat (colorCount (options s)) 200"
  define cs where "cs = generatePerceptuallyDistinctColors n (rand e 0)"
  define e' where "e' = e\<lparr>rand := (\<lambda>k. rand e (Suc k))\<rparr>"
  have n: "0 < n" by (simp add: n_def or_nat_pos)
  have r0: "0 \<le> rand e 0" and r': "randomOk (rand e')"
    using assms(2) by (simp_all add: randomOk_def e'_def)
  have cs: "length cs = n" "list_all (\<lambda>c. 0 \<le> hsl_h c) cs"
    using genLoop_props [OF r0, of n 0] by (simp_all add: cs_def generatePerceptuallyDistinctColors_def)
  then have hues: "list_all (\<lambda>c. 0 \<le> hsl_h (cs ! c)) [0..<n]"
    by (simp add: list_all_length)
  have "distinct [0..<n]" by simp
  moreover have "3 \<le> min 10 n \<or> length [0..<n] \<le> min 10 n" by auto
  ultimately have "\<exists>batch. selectDiverseBatch cs [0..<n] (min 10 n) e' = Inr batch \<and> distinct batch
      \<and> set batch \<subseteq> set [0..<n] \<and> length batch = min (min 10 n) (length [0..<n])"
    using hues r' by (intro selectDiverseBatch_props)
  then obtain batch where batch: "selectDiverseBatch cs [0..<n] (min 10 n) e' = Inr batch"
    "distinct batch" "length batch = min 10 n"
    by auto
  have "initialize s given e =
      (Returned, s\<lparr>settings := Some (chooseSettings given (options s)), colors := cs,
         options := (options s)\<lparr>items := optionsItems s\<rparr>,
         itemsShared := False, eliminated := [], favorites := [],
         evaluating := Some batch, sessionComplete := False,
         analytics := (analytics s)\<lparr>sessionStartTime := clock1 e, sessionComparisons := 0\<rparr>,
         lastActionTime := clock2 e\<rparr>)"
    using assms(1,3) n batch(1) cs(1)
    by (simp add: initialize_def nextBatch_def capReached_def availableRefs_def Let_def
        cs_def [symmetric] n_def [symmetric] e'_def [symmetric])
      (simp add: e'_def)
  then show ?thesis
    using batch cs by (simp add: n_def)
qed

lemma initialize_empty:
  assumes "generateColors (options s) = Some False" "optionsItems s = Some []"
  shows "initialize s given e =
    (Returned, s\<lparr>settings := Some (chooseSettings given (options s)), colors := [],
       options := (options s)\<lparr>items := optionsItems s\<rparr>,
       itemsShared := False, eliminated := [], favorites := [], evaluating := None,
       sessionComplete := True,
       analytics := (analytics s)\<lparr>sessionStartTime := clock1 e, sessionComparisons := 0\<rparr>\<rparr>)"
  using assms
  by (simp add: initialize_def nextBatch_def capReached_def availableRefs_def Let_def complete_def)

lemma construct_zeroCount: "EloPickerState zeroCountOptions demoEnv = Some zeroCountSession"
  by (simp add: EloPickerState_def zeroCountOptions_def zeroCountSession_def oneItemSession_def
      or_nat_def demoEnv_def freshAnalytics_def)

lemma construct_emptyItems: "EloPickerState emptyItemsOptions demoEnv = Some emptyItemsSession"
  by (simp add: EloPickerState_def emptyItemsOptions_def emptyItemsSession_def oneItemSession_def
      or_nat_def demoEnv_def freshAnalytics_def)

lemma randomOk_demoEnv: "randomOk (rand demoEnv)"
  by (simp add: demoEnv_def randomOk_def)

text \<open>
  C4 (as the code has it). A requested count of 0 is replaced by the default 200
  (\<open>colorCount || 200\<close>): with generation enabled, \<open>initialize\<close> produces a pool of 200
  items and an active session with a batch of 10. The generator itself returns an empty
  pool for a count of 0, and a session over an empty list of supplied items (generation
  disabled) is complete at once, with an empty pool and no batch.
\<close>

theorem initialize_zero_count:
  assumes "EloPickerState opts e0 = Some s0" and "randomOk (rand e)"
  shows "(generateColors opts = Some True \<and> colorCount opts = Some 0 \<longrightarrow>
        fst (initialize s0 given e) = Returned
        \<and> length (colors (snd (initialize s0 given e))) = 200
        \<and> \<not> sessionComplete (snd (initialize s0 given e))
        \<and> (\<exists>batch. evaluating (snd (initialize s0 given e)) = Some batch \<and> length batch = 10))
    \<and> (generateColors opts = Some False \<and> items opts = Some [] \<longrightarrow>
        fst (initialize s0 given e) = Returned
        \<and> colors (snd (initialize s0 given e)) = []
        \<and> sessionComplete (snd (initialize s0 given e))
        \<and> evaluating (snd (initialize s0 given e)) = None)
    \<and> generatePerceptuallyDistinctColors 0 (rand e 0) = []"
proof (intro conjI impI)
  note c = constructed [OF assms(1)]
  have m: "0 < maxComparisons s0" by (simp add: c or_nat_pos)
  {
    assume a: "generateColors opts = Some True \<and> colorCount opts = Some 0"
    then have "generateColors (options s0) \<noteq> Some False" by (simp add: c)
    from initialize_generated [OF this assms(2) m, of given] a
    show "fst (initialize s0 given e) = Returned"
      and "length (colors (snd (initialize s0 given e))) = 200"
      and "\<not> sessionComplete (snd (initialize s0 given e))"
      and "\<exists>batch. evaluating (snd (initialize s0 given e)) = Some batch \<and> length batch = 10"
      by (auto simp: c or_nat_def)
  }
  {
    assume a: "generateColors opts = Some False \<and> items opts = Some []"
    then have "initialize s0 given e =
      (Returned, s0\<lparr>settings := Some (chooseSettings given (options s0)), colors := [],
         options := (options s0)\<lparr>items := optionsItems s0\<rparr>,
         itemsShared := False, eliminated := [], favorites := [], evaluating := None,
         sessionComplete := True,
         analytics := (analytics s0)\<lparr>sessionStartTime := clock1 e, sessionComparisons := 0\<rparr>\<rparr>)"
      by (intro initialize_empty) (simp_all add: c optionsItems_def)
    then show "fst (initialize s0 given e) = Returned"
      and "colors (snd (initialize s0 given e)) = []"
      and "sessionComplete (snd (initialize s0 given e))"
      and "evaluating (snd (initialize s0 given e)) = None"
      by simp_all
  }
  show "generatePerceptuallyDistinctColors 0 (rand e 0) = []"
    by (simp add: generatePerceptuallyDistinctColors_def)
qed

theorem initialize_zero_count_witness:
  "length (colors (snd (initialize zeroCountSession None demoEnv))) = 200
   \<and> \<not> sessionComplete (snd (initialize zeroCountSession None demoEnv))
   \<and> colors (snd (initialize emptyItemsSession None demoEnv)) = []
   \<and> sessionComplete (snd (initialize emptyItemsSession None demoEnv))"
  using initialize_zero_count [of zeroCountOptions demoEnv zeroCountSession demoEnv None]
    initialize_zero_count [of emptyItemsOptions demoEnv emptyItemsSession demoEnv None]
  by (simp add: construct_zeroCount construct_emptyItems randomOk_demoEnv)
    (simp add: zeroCountOptions_def emptyItemsOptions_def)

text \<open>
  C4 as the claim words it fails: the session constructed with a count of 0 and generation
  enabled is not complete after \<open>initialize\<close>, and its pool is not empty.
\<close>

theorem zero_count_counterexample:
  "EloPickerState zeroCountOptions demoEnv = Some zeroCountSession
   \<and> \<not> (colors (snd (initialize zeroCountSession None demoEnv)) = []
      \<and> sessionComplete (snd (initialize zeroCountSession None demoEnv))
      \<and> evaluating (snd (initialize zeroCountSession None demoEnv)) = None)"
  using initialize_generated [of zeroCountSession demoEnv None]
  by (simp add: construct_zeroCount randomOk_demoEnv)
    (simp add: zeroCountSession_def zeroCountOptions_def oneItemSession_def)



section \<open>The batch refers into the pool\<close>

lemma highRated_subset:
  "set (fst (highRated cs rnd cnt xs k batch used)) \<subseteq> set batch \<union> set xs"
proof (induction xs arbitrary: k batch used)
  case Nil
  then show ?case by simp
next
  case (Cons c rest)
  show ?case
    using Cons.IH [of "Suc k" "batch @ [c]" "insert (getHueGroup (hsl_h (cs ! c))) used"]
      Cons.IH [of "Suc k" batch used]
    by auto
qed

lemma groupLoop_subset:
  assumes "set batch \<subseteq> A" "\<And>key. set (hueGroups key) \<subseteq> A" "randomOk rnd"
  shows "set (fst (groupLoop rnd hueGroups size_n keys k batch used)) \<subseteq> A"
  using assms(1)
proof (induction keys arbitrary: k batch used)
  case Nil
  then show ?case by simp
next
  case (Cons key rest)
  show ?case
  proof (cases "length batch \<ge> size_n \<or> hueGroups key = [] \<or> key \<in> used")
    case True
    then show ?thesis using Cons by auto
  next
    case False
    define g where "g = hueGroups key"
    define i where "i = nat \<lfloor>rnd k * real (min 3 (length g))\<rfloor>"
    have "g \<noteq> []" using False by (simp add: g_def)
    then have "i < min 3 (length g)"
      unfolding i_def using assms(3) by (intro random_index) (simp_all add: randomOk_def)
    then have "g ! i \<in> set g" by simp
    then have "g ! i \<in> A" using assms(2) [of key] by (auto simp: g_def)
    then have "set (batch @ [g ! i]) \<subseteq> A" using Cons.prems by simp
    from Cons.IH [OF this, of "Suc k" "insert key used"] Cons.IH [OF Cons.prems, of "Suc k" used]
      False
    show ?thesis by (simp add: Let_def g_def i_def)
  qed
qed

lemma fillLoop_subset:
  assumes "randomOk rnd"
  shows "set (fillLoop rnd size_n k batch remaining) \<subseteq> set batch \<union> set remaining"
  using assms
proof (induction rnd size_n k batch remaining rule: fillLoop.induct)
  case (1 rnd size_n k batch remaining)
  show ?case
  proof (cases "length batch < size_n \<and> remaining \<noteq> []")
    case False
    then show ?thesis by (auto simp: fillLoop.simps [of rnd size_n k batch remaining])
  next
    case True
    define i where "i = nat \<lfloor>rnd k * real (length remaining)\<rfloor>"
    have i: "i < length remaining"
      unfolding i_def using True "1.prems" by (intro random_index) (simp_all add: randomOk_def)
    have "set (take i remaining @ drop (Suc i) remaining) \<subseteq> set remaining"
      using set_take_subset [of i remaining] set_drop_subset [of "Suc i" remaining] by auto
    moreover have "remaining ! i \<in> set remaining" using i by simp
    ultimately show ?thesis
      using "1.IH" [OF True i_def "1.prems"] True
      by (auto simp: fillLoop.simps [of rnd size_n k batch remaining] Let_def i_def)
  qed
qed

lemma selectDiverseBatch_subset:
  assumes "selectDiverseBatch cs available size_n e = Inr batch" "randomOk (rand e)"
  shows "set batch \<subseteq> set available"
proof (cases "length available \<le> size_n")
  case True
  then show ?thesis using assms(1) by (simp add: selectDiverseBatch_def)
next
  case False
  then obtain hueGroups where g: "groupByHue cs available = Some hueGroups"
    using assms(1) by (auto simp: selectDiverseBatch_def split: option.splits)
  then have groups: "\<And>key. set (hueGroups key) \<subseteq> set available"
    by (auto simp: groupByHue_def split: if_splits)
  define startIndex where
    "startIndex = (if rand e 0 < 0.6 then nat \<lfloor>rand e 1 * 3\<rfloor> + 1 else 0)"
  define k1 :: nat where "k1 = (if rand e 0 < 0.6 then 2 else 1)"
  define cnt where "cnt = 2 + nat \<lfloor>rand e k1 * 2\<rfloor>"
  define hr where
    "hr = highRated cs (rand e) cnt (drop startIndex (sortByRating cs available)) (Suc k1) [] {}"
  define gl where
    "gl = groupLoop (rand e) hueGroups size_n (keyOrder e) (snd (snd hr) + sortDraws e)
       (fst hr) (fst (snd hr))"
  define remaining where "remaining = filter (\<lambda>c. c \<notin> set (fst gl)) available"
  define batch3 where "batch3 = fillLoop (rand e) size_n (snd gl) (fst gl) remaining"
  have res: "batch = sortByHue cs batch3"
    using False assms(1)
    by (simp add: selectDiverseBatch_def g Let_def split_beta
        batch3_def remaining_def gl_def hr_def cnt_def k1_def startIndex_def)
  have "set (fst hr) \<subseteq> set available"
    using highRated_subset [of cs "rand e" cnt "drop startIndex (sortByRating cs available)" "Suc k1" "[]" "{}"]
      set_drop_subset [of startIndex "sortByRating cs available"]
    by (auto simp: hr_def)
  from groupLoop_subset [OF this groups assms(2)]
  have "set (fst gl) \<subseteq> set available" by (simp add: gl_def)
  then have "set batch3 \<subseteq> set available"
    using fillLoop_subset [OF assms(2), of size_n "snd gl" "fst gl" remaining]
    by (auto simp: batch3_def remaining_def)
  then show ?thesis by (simp add: res)
qed

lemma refsValid_nextBatch:
  assumes "refsValid s" "randomOk (rand e)"
  shows "refsValid (snd (nextBatch s e))"
proof (cases "capReached s \<or> length (availableRefs s) = 0")
  case True
  then show ?thesis by (auto simp: nextBatch_def Let_def complete_def refsValid_def)
next
  case False
  define s1 where "s1 = (if sessionComparisons (analytics s) \<ge> 10 then
      s\<lparr>eliminated := eliminated s @ eliminationPass (colors s) (availableRefs s)\<rparr> else s)"
  define r where "r = selectDiverseBatch (colors s1)
      (filter (\<lambda>c. c \<notin> set (eliminated s1)) (availableRefs s)) (min 10 (length (availableRefs s))) e"
  have s1: "colors s1 = colors s" "evaluating s1 = evaluating s"
    by (simp_all add: s1_def)
  have nb: "nextBatch s e = (case r of Inl err \<Rightarrow> (Threw err, s1)
      | Inr batch \<Rightarrow> (Returned, s1\<lparr>evaluating := Some batch, lastActionTime := clock2 e\<rparr>))"
    using False by (auto simp: nextBatch_def Let_def r_def s1_def split: sum.splits)
  show ?thesis
  proof (cases r)
    case (Inl err)
    then show ?thesis using assms(1) by (simp add: nb refsValid_def s1 split: option.splits)
  next
    case (Inr batch)
    then have "selectDiverseBatch (colors s1)
        (filter (\<lambda>c. c \<notin> set (eliminated s1)) (availableRefs s))
        (min 10 (length (availableRefs s))) e = Inr batch"
      by (simp add: r_def)
    then have "set batch \<subseteq> set (filter (\<lambda>c. c \<notin> set (eliminated s1)) (availableRefs s))"
      using assms(2) by (rule selectDiverseBatch_subset)
    then have "list_all (\<lambda>c. c < length (colors s)) batch"
      by (auto simp: list_all_iff availableRefs_def)
    then show ?thesis using Inr by (simp add: nb refsValid_def s1 split: option.splits)
  qed
qed

lemma refsValid_length:
  assumes "refsValid s" "length cs = length (colors s)"
  shows "refsValid (s\<lparr>colors := cs\<rparr>)"
  using assms by (simp add: refsValid_def split: option.splits)

lemma refsValid_pick:
  assumes "refsValid s" "randomOk (rand e)"
  shows "refsValid (snd (pick s picked e))"
proof (cases "evaluating s = None \<or> picked = [] \<or> capReached s")
  case True
  then show ?thesis
    using assms(1) by (auto simp: pick_def refsValid_def split: option.splits)
next
  case False
  then obtain ev where ev: "evaluating s = Some ev" by auto
  define cs2 where "cs2 = colors (snd (pick s picked e))"
  have len: "length cs2 = length (colors s)"
    using total_pick [OF assms(1), of picked e] by (simp add: cs2_def)
  define a2 where "a2 = (recordDecision s (clock1 e))\<lparr>
      sessionComparisons := sessionComparisons (recordDecision s (clock1 e)) + 1,
      totalComparisons := totalComparisons (recordDecision s (clock1 e)) + 1,
      picks := picks (recordDecision s (clock1 e)) + 1\<rparr>"
  define s1 where "s1 = checkForNewFavorites (s\<lparr>analytics := a2, colors := cs2\<rparr>)"
  have cs2: "cs2 = (let winners = filter (\<lambda>c. color_id (colors s ! c) \<in> set picked) ev;
                    losers = filter (\<lambda>c. color_id (colors s ! c) \<notin> set picked) ev;
                    cs1 = winAll winners losers (colors s)
                in if length winners > 1 then drawAllPairs winners cs1 else cs1)"
    using False ev by (simp add: cs2_def colors_pick)
  have p: "pick s picked e = (if sessionComparisons (analytics s1) \<ge> maxComparisons s1 then
        (Returned, s1\<lparr>sessionComplete := True, evaluating := None\<rparr>) else nextBatch s1 e)"
    using False ev by (simp add: pick_def Let_def s1_def a2_def cs2)
  have "refsValid (s\<lparr>analytics := a2, colors := cs2\<rparr>)"
    using assms(1) len by (simp add: refsValid_def split: option.splits)
  then have "refsValid s1"
    by (simp add: s1_def checkForNewFavorites_def Let_def refsValid_def split: list.splits option.splits)
  then show ?thesis
    using refsValid_nextBatch [OF _ assms(2), of s1] by (simp add: p refsValid_def split: option.splits)
qed

lemma refsValid_pass:
  assumes "refsValid s" "randomOk (rand e)"
  shows "refsValid (snd (pass s e))"
proof (cases "evaluating s = None \<or> capReached s")
  case True
  then show ?thesis
    using assms(1) by (auto simp: pass_def refsValid_def split: option.splits)
next
  case False
  then obtain ev where ev: "evaluating s = Some ev" by auto
  define a2 where "a2 = (recordDecision s (clock1 e))\<lparr>
      sessionComparisons := sessionComparisons (recordDecision s (clock1 e)) + 1,
      passes := passes (recordDecision s (clock1 e)) + 1\<rparr>"
  define s1 where "s1 = s\<lparr>analytics := a2, colors := drawAllPairs ev (colors s)\<rparr>"
  have "list_all (\<lambda>c. c < length (colors s)) ev"
    using assms(1) ev by (simp add: refsValid_def)
  then have len: "length (drawAllPairs ev (colors s)) = length (colors s)"
    using drawAllPairs_total by blast
  have p: "pass s e = (if sessionComparisons (analytics s1) \<ge> maxComparisons s1 then
        (Returned, s1\<lparr>sessionComplete := True, evaluating := None\<rparr>) else nextBatch s1 e)"
    using False ev by (simp add: pass_def Let_def s1_def a2_def)
  have "refsValid s1"
    using assms(1) len by (simp add: s1_def refsValid_def split: option.splits)
  then show ?thesis
    using refsValid_nextBatch [OF _ assms(2), of s1] by (simp add: p refsValid_def split: option.splits)
qed

lemma run_total:
  assumes "refsValid s" "list_all decisionOk ds"
  shows "refsValid (run s ds) \<and> total (colors (run s ds)) = total (colors s)"
  using assms
proof (induction ds arbitrary: s)
  case Nil
  then show ?case by (simp add: run_def)
next
  case (Cons d ds)
  have "refsValid (decide s d) \<and> total (colors (decide s d)) = total (colors s)"
    using Cons.prems
    by (cases d) (simp_all add: decisionOk_def refsValid_pick refsValid_pass total_pick total_pass)
  moreover have "run s (d # ds) = run (decide s d) ds" by (simp add: run_def)
  ultimately show ?case using Cons.IH [of "decide s d"] Cons.prems by simp
qed

lemma refsValid_initialize:
  assumes "randomOk (rand e)"
  shows "refsValid (snd (initialize s given e))"
  unfolding initialize_def
  by (rule refsValid_nextBatch) (use assms in \<open>simp_all add: refsValid_def randomOk_def\<close>)


text \<open>
  C10. The expected scores of the two sides sum to 1, and one call of the update rule,
  draw or not, leaves the sum of the two participants' ratings, and so the total rating
  of the pool, unchanged. On a session whose batch refers into its pool (as it does after
  \<open>initialize\<close> and after every decision), neither a pick nor a pass changes the total
  rating of the pool, and so no sequence of picks and passes does.
\<close>

theorem rating_mass_preserved:
  assumes "w < length cs" "l < length cs" "refsValid s" "list_all decisionOk ds"
  shows "calculateExpectedScore (eloRating (cs ! w)) (eloRating (cs ! l))
      + calculateExpectedScore (eloRating (cs ! l)) (eloRating (cs ! w)) = 1
    \<and> eloRating (updateEloRatings cs w l isDraw ! w) + eloRating (updateEloRatings cs w l isDraw ! l)
      = eloRating (cs ! w) + eloRating (cs ! l)
    \<and> total (updateEloRatings cs w l isDraw) = total cs
    \<and> total (colors (snd (pick s picked e))) = total (colors s)
    \<and> total (colors (snd (pass s e))) = total (colors s)
    \<and> total (colors (run s ds)) = total (colors s)"
  using assms
  by (simp add: expected_sum pair_sum_updateEloRatings total_updateEloRatings total_pick
      total_pass run_total)

theorem rating_mass_preserved_witness:
  "eloRating (updateEloRatings twoItems 0 1 True ! 0) + eloRating (updateEloRatings twoItems 0 1 True ! 1)
      = 3000
   \<and> total (colors (snd (pick twoItemSession [''a''] demoEnv))) = 3000
   \<and> total (colors (snd (pass twoItemSession demoEnv))) = 3000
   \<and> total (colors (run twoItemSession [Pick [''a''] demoEnv, Pass demoEnv])) = 3000"
  using rating_mass_preserved [of 0 twoItems 1 twoItemSession "[Pick [''a''] demoEnv, Pass demoEnv]"
      True "[''a'']" demoEnv]
  by (simp add: refsValid_def twoItemSession_def twoItems_def total_def decisionOk_def
      randomOk_demoEnv)

end
